theory Spec2Isabelle
  imports Main "HOL-Library.AList"
begin

section \<open>Displayed text\<close>

text \<open>
  The user interface shows two kinds of strings: literal ones, and the result of the
  translation function \<open>$t(key)\<close>. The translation tables are not part of the sources,
  so a translated string is kept symbolic as its key.
\<close>

datatype msg = Lit string | Tr string

section \<open>Global loading stack (composables/useGlobalLoading.ts)\<close>

text \<open>
  \<^verbatim>\<open>const messageStack = ref<string[]>([])\<close>: a module-level array of messages.
  \<open>push\<close> appends at the end, \<open>pop\<close> removes the last element.
\<close>

definition startLoading :: "msg option \<Rightarrow> msg list \<Rightarrow> msg list" where
  "startLoading message messageStack =
     messageStack @ [case message of None \<Rightarrow> Tr ''common.operation_in_progress'' | Some m \<Rightarrow> m]"

definition stopLoading :: "msg list \<Rightarrow> msg list" where
  "stopLoading messageStack =
     (if length messageStack > 0 then butlast messageStack else messageStack)"

definition isLoading :: "msg list \<Rightarrow> bool" where
  "isLoading messageStack = (length messageStack > 0)"

definition loadingMessage :: "msg list \<Rightarrow> msg" where
  "loadingMessage messageStack =
     (if length messageStack = 0 then Tr ''common.operation_in_progress''
      else last messageStack)"

text \<open>
  \<open>withLoading(operation, message)\<close> is an async function: it runs \<open>startLoading\<close>,
  invokes the operation and suspends at \<open>await\<close>; when the operation's promise settles
  (resolves with a value or rejects with an error) the \<open>finally\<close> block runs
  \<open>stopLoading\<close> and the outcome is handed to the caller. Several calls may be
  suspended at once on the single-threaded event loop, so a run of the program is a
  sequence of two kinds of events over the shared stack. Calls are told apart by a
  number.
\<close>

datatype 'r settle = Resolve 'r | Reject string

datatype 'r loading_event = Call nat "msg option" | Settled nat "'r settle"

record 'r loading_state =
  messageStack :: "msg list"
  awaiting :: "nat list"
  returned :: "(nat \<times> 'r settle) list"

definition loading_init :: "'r loading_state" where
  "loading_init = \<lparr>messageStack = [], awaiting = [], returned = []\<rparr>"

text \<open>Entry of \<open>withLoading\<close> up to the \<open>await\<close>: the push, then the operation is running.\<close>

definition withLoading_enter :: "nat \<Rightarrow> msg option \<Rightarrow> 'r loading_state \<Rightarrow> 'r loading_state" where
  "withLoading_enter i message s =
     s\<lparr>messageStack := startLoading message (messageStack s),
       awaiting := awaiting s @ [i]\<rparr>"

text \<open>Resumption of \<open>withLoading\<close> after the \<open>await\<close>: \<open>finally\<close>, then return or rethrow.\<close>

definition withLoading_exit :: "nat \<Rightarrow> 'r settle \<Rightarrow> 'r loading_state \<Rightarrow> 'r loading_state" where
  "withLoading_exit i outcome s =
     s\<lparr>messageStack := stopLoading (messageStack s),
       awaiting := removeAll i (awaiting s),
       returned := returned s @ [(i, outcome)]\<rparr>"

text \<open>
  An event that cannot happen gives \<open>None\<close>: a call number is used once, and a promise
  settles once, after its operation was invoked.
\<close>

definition loading_step :: "'r loading_event \<Rightarrow> 'r loading_state \<Rightarrow> 'r loading_state option" where
  "loading_step e s =
     (case e of
        Call i message \<Rightarrow>
          if i \<in> set (awaiting s) \<or> i \<in> fst ` set (returned s) then None
          else Some (withLoading_enter i message s)
      | Settled i outcome \<Rightarrow>
          if i \<in> set (awaiting s) then Some (withLoading_exit i outcome s) else None)"

fun loading_run :: "'r loading_event list \<Rightarrow> 'r loading_state \<Rightarrow> 'r loading_state option" where
  "loading_run [] s = Some s"
| "loading_run (e # es) s =
     (case loading_step e s of None \<Rightarrow> None | Some s' \<Rightarrow> loading_run es s')"

text \<open>The calls that were made, and the calls whose operation has settled, in a trace.\<close>

fun call_ids :: "'r loading_event list \<Rightarrow> nat list" where
  "call_ids [] = []"
| "call_ids (Call i message # es) = i # call_ids es"
| "call_ids (Settled i outcome # es) = call_ids es"

fun settled_ids :: "'r loading_event list \<Rightarrow> nat list" where
  "settled_ids [] = []"
| "settled_ids (Call i message # es) = settled_ids es"
| "settled_ids (Settled i outcome # es) = i # settled_ids es"

definition pending :: "'r loading_event list \<Rightarrow> nat list" where
  "pending tr = filter (\<lambda>i. i \<notin> set (settled_ids tr)) (call_ids tr)"

definition loading_inv :: "'r loading_event list \<Rightarrow> 'r loading_state \<Rightarrow> bool" where
  "loading_inv tr s =
     (awaiting s = pending tr \<and> distinct (call_ids tr) \<and>
      fst ` set (returned s) = set (settled_ids tr) \<and>
      length (messageStack s) = length (awaiting s))"

section \<open>Notification queue (composables/useNotification, second part of useGlobalLoading.ts)\<close>

datatype NotificationType = Success | Warning | Error | Info

text \<open>
  \<open>NotificationOptions\<close>: \<open>title\<close>, \<open>duration\<close> and \<open>persistent\<close> are optional
  (\<open>None\<close> is JavaScript's \<open>undefined\<close>). Durations are numbers of milliseconds.
  In \<open>QueuedNotification\<close> the fields \<open>type\<close> and \<open>id\<close> are \<open>ntype\<close> and \<open>nid\<close> here.
\<close>

record NotificationOptions =
  title :: "msg option"
  duration :: "int option"
  message :: msg
  persistent :: "bool option"

record QueuedNotification =
  ntype :: NotificationType
  options :: NotificationOptions
  nid :: string

fun defaultDurations :: "NotificationType \<Rightarrow> int" where
  "defaultDurations Success = 3000"
| "defaultDurations Warning = 3000"
| "defaultDurations Error = 3000"
| "defaultDurations Info = 3000"

fun defaultTitles :: "NotificationType \<Rightarrow> msg" where
  "defaultTitles Success = Tr ''misc.success''"
| "defaultTitles Warning = Tr ''misc.warning''"
| "defaultTitles Error = Tr ''misc.error''"
| "defaultTitles Info = Tr ''misc.info''"

text \<open>The argument that \<open>show\<close> passes to \<open>ElNotification\<close>.\<close>

record NotificationParams =
  p_title :: msg
  p_message :: msg
  p_type :: NotificationType
  p_duration :: int

text \<open>
  \<^verbatim>\<open>const { message, title = defaultTitles[type],
          duration = options.persistent ? 0 : defaultDurations[type] } = options\<close>
  A destructuring default applies when the property is \<open>undefined\<close>.
\<close>

definition show_params :: "NotificationType \<Rightarrow> NotificationOptions \<Rightarrow> NotificationParams" where
  "show_params type opts =
     \<lparr>p_title = (case title opts of None \<Rightarrow> defaultTitles type | Some t \<Rightarrow> t),
      p_message = message opts,
      p_type = type,
      p_duration = (case duration opts of
                      None \<Rightarrow> (if persistent opts = Some True then 0 else defaultDurations type)
                    | Some d \<Rightarrow> d)\<rparr>"

text \<open>
  The module state: the pending queue, the active notifications (their ids; the handle
  is opaque), and the \<open>isProcessing\<close> flag. Around it, what the event loop holds: the
  clock in milliseconds, the deadline of every \<open>setTimeout(resolve, 100)\<close> a suspended
  \<open>processQueue\<close> is waiting on, and the log of the calls of \<open>ElNotification\<close> with the
  time of each.
\<close>

record Render =
  r_time :: nat
  r_id :: string
  r_params :: NotificationParams

record notify_state =
  messageQueue :: "QueuedNotification list"
  activeNotifications :: "string list"
  isProcessing :: bool
  now :: nat
  timers :: "nat list"
  rendered :: "Render list"

definition notify_init :: notify_state where
  "notify_init = \<lparr>messageQueue = [], activeNotifications = [], isProcessing = False,
                   now = 0, timers = [], rendered = []\<rparr>"

definition show_notification :: "NotificationType \<Rightarrow> NotificationOptions \<Rightarrow> string \<Rightarrow> notify_state \<Rightarrow> notify_state" where
  "show_notification type opts i s =
     s\<lparr>rendered := rendered s @ [\<lparr>r_time = now s, r_id = i, r_params = show_params type opts\<rparr>],
       activeNotifications := activeNotifications s @ [i]\<rparr>"

text \<open>
  The \<open>while\<close> loop of \<open>processQueue\<close>, from the test of its condition to the point
  where the function suspends at the \<open>await\<close> of the 100 ms timer, or leaves the loop
  and clears the flag.
\<close>

definition queue_loop :: "notify_state \<Rightarrow> notify_state" where
  "queue_loop s =
     (case messageQueue s of
        [] \<Rightarrow> s\<lparr>isProcessing := False\<rparr>
      | notification # rest \<Rightarrow>
          (let s1 = show_notification (ntype notification) (options notification) (nid notification)
                      (s\<lparr>messageQueue := rest\<rparr>)
           in s1\<lparr>timers := timers s1 @ [now s1 + 100]\<rparr>))"

definition processQueue :: "notify_state \<Rightarrow> notify_state" where
  "processQueue s =
     (if isProcessing s \<or> length (messageQueue s) = 0 then s
      else queue_loop (s\<lparr>isProcessing := True\<rparr>))"

definition addToQueue :: "NotificationType \<Rightarrow> NotificationOptions \<Rightarrow> string \<Rightarrow> notify_state \<Rightarrow> notify_state" where
  "addToQueue type opts i s =
     processQueue (s\<lparr>messageQueue := messageQueue s @ [\<lparr>ntype = type, options = opts, nid = i\<rparr>]\<rparr>)"

text \<open>
  Events of a run: a call of \<open>showSuccess\<close>, \<open>showWarning\<close>, \<open>showError\<close> or \<open>showInfo\<close>
  (with the id that \<open>generateId\<close> draws), the passing of time, and the firing of the
  \<open>k\<close>-th outstanding timer, which resumes the \<open>processQueue\<close> waiting on it. A timer
  does not fire before its deadline.
\<close>

datatype notify_event = ShowCall NotificationType NotificationOptions string | Elapse nat | Wake nat

definition notify_step :: "notify_event \<Rightarrow> notify_state \<Rightarrow> notify_state option" where
  "notify_step e s =
     (case e of
        ShowCall type opts i \<Rightarrow> Some (addToQueue type opts i s)
      | Elapse d \<Rightarrow> Some (s\<lparr>now := now s + d\<rparr>)
      | Wake k \<Rightarrow>
          if k < length (timers s) \<and> timers s ! k \<le> now s
          then Some (queue_loop (s\<lparr>timers := take k (timers s) @ drop (Suc k) (timers s)\<rparr>))
          else None)"

fun notify_run :: "notify_event list \<Rightarrow> notify_state \<Rightarrow> notify_state option" where
  "notify_run [] s = Some s"
| "notify_run (e # es) s =
     (case notify_step e s of None \<Rightarrow> None | Some s' \<Rightarrow> notify_run es s')"

text \<open>What a trace enqueues, in call order, as (id, rendered parameters).\<close>

fun enqueued :: "notify_event list \<Rightarrow> (string \<times> NotificationParams) list" where
  "enqueued [] = []"
| "enqueued (ShowCall type opts i # es) = (i, show_params type opts) # enqueued es"
| "enqueued (Elapse d # es) = enqueued es"
| "enqueued (Wake k # es) = enqueued es"

definition spaced :: "nat list \<Rightarrow> bool" where
  "spaced ts = (\<forall>k. Suc k < length ts \<longrightarrow> ts ! k + 100 \<le> ts ! Suc k)"

text \<open>A burst of \<open>n\<close> timer periods, each timer firing exactly at its deadline.\<close>

definition ticks :: "nat \<Rightarrow> notify_event list" where
  "ticks n = concat (replicate n [Elapse 100, Wake 0])"

text \<open>The renders of a queue drained from time \<open>t\<close> on, one per timer period.\<close>

fun drain_renders :: "nat \<Rightarrow> QueuedNotification list \<Rightarrow> Render list" where
  "drain_renders t [] = []"
| "drain_renders t (n # q) =
     \<lparr>r_time = t, r_id = nid n, r_params = show_params (ntype n) (options n)\<rparr> # drain_renders (t + 100) q"

definition show_calls :: "(NotificationType \<times> NotificationOptions \<times> string) list \<Rightarrow> notify_event list" where
  "show_calls cs = map (\<lambda>(type, opts, i). ShowCall type opts i) cs"

definition notify_inv :: "notify_event list \<Rightarrow> notify_state \<Rightarrow> bool" where
  "notify_inv tr s =
     (map (\<lambda>r. (r_id r, r_params r)) (rendered s) @
        map (\<lambda>n. (nid n, show_params (ntype n) (options n))) (messageQueue s) = enqueued tr \<and>
      spaced (map r_time (rendered s)) \<and>
      (\<forall>r \<in> set (rendered s). r_time r \<le> now s) \<and>
      (if isProcessing s
       then rendered s \<noteq> [] \<and> timers s = [r_time (last (rendered s)) + 100]
       else timers s = [] \<and> messageQueue s = [] \<and>
            (\<forall>r \<in> set (rendered s). r_time r + 100 \<le> now s)))"

section \<open>Strings, objects and the configuration document\<close>

text \<open>
  A JavaScript string is a \<open>string\<close>, one \<open>char\<close> per code unit below 256.
  \<open>String.prototype.trim\<close> removes white space and line terminators from both ends;
  below 256 these are the code units 9 to 13, 32 and 160. A string is truthy when it is
  not empty.
\<close>

definition js_whitespace :: "char \<Rightarrow> bool" where
  "js_whitespace c = (of_char c \<in> {9, 10, 11, 12, 13, 32, 160 :: nat})"

definition trim :: "string \<Rightarrow> string" where
  "trim s = rev (dropWhile js_whitespace (rev (dropWhile js_whitespace s)))"

definition truthy :: "string \<Rightarrow> bool" where
  "truthy s = (s \<noteq> [])"

text \<open>
  An object used as a table from device ids to paths is an association list in
  enumeration order: \<open>o[k]\<close> is \<open>map_of o k\<close> (\<open>None\<close> for \<open>undefined\<close>), and
  \<open>o[k] = v\<close> is \<open>AList.update k v o\<close>, which keeps the place of an existing key and
  appends a new one.
\<close>

type_synonym paths_obj = "(string \<times> string) list"

text \<open>
  \<open>SaveUnit\<close>, \<open>Game\<close> and \<open>Device\<close> come from the generated bindings, which are not part
  of the sources; the fields are those the pages read and write. Optional fields that
  the code guards against (\<open>unit.paths\<close>, \<open>game.save_paths\<close>, \<open>game.game_paths\<close>) are
  options. The fields \<open>id\<close> and \<open>name\<close> of a device are \<open>dev_id\<close> and \<open>dev_name\<close> here.
\<close>

record SaveUnit =
  unit_type :: string
  delete_before_apply :: bool
  paths :: "paths_obj option"

record Game =
  name :: string
  save_paths :: "SaveUnit list option"
  game_paths :: "paths_obj option"

record Device =
  dev_id :: string
  dev_name :: string

datatype QuickActionSoundSource = Default | File "string option"

record QuickActionSoundSlots =
  success :: "QuickActionSoundSource option"
  failure :: "QuickActionSoundSource option"

record QuickActionsSettings =
  enable_sound :: "bool option"
  enable_notification :: "bool option"
  sounds :: "QuickActionSoundSlots option"

record Config =
  games :: "Game list option"
  quick_action :: "QuickActionsSettings option"

section \<open>Backend commands and observable effects\<close>

text \<open>
  A backend command resolves with \<open>{status: "ok", data}\<close> or \<open>{status: "error", error}\<close>,
  or its promise rejects; a rejection carries the text of the thrown value.
  What a function does to the outside is recorded in a trace.
\<close>

datatype 'a response = Ok 'a | Err string | Throws string

datatype 'd effect =
    GetLocalConfig
  | SetConfig 'd
  | GetCurrentDeviceInfo
  | LogError string
  | Notify NotificationType msg
  | ConfirmBox msg msg
  | PromptBox "(string \<times> string) list"

section \<open>Config store (composables/useConfig)\<close>

text \<open>
  \<^verbatim>\<open>const defaultConfig: Config = DEFAULT_CONFIG as unknown as Config;
  const config = ref(defaultConfig)
  const isLoading = ref(false)\<close>
  The store's \<open>isLoading\<close> is \<open>configLoading\<close> here. Of the configuration document, the
  fields that the pages below work on are kept. The field \<open>config\<close> is the content of the
  object that \<open>config.value\<close> refers to: the pages write to the fields of that object in
  place, which is an update of \<open>config\<close>.
\<close>

record config_store =
  config :: Config
  configLoading :: bool
  trace :: "Config effect list"

text \<open>
  \<open>DEFAULT_CONFIG\<close> is an object of the bindings, and the module never copies it:
  \<open>ref(defaultConfig)\<close> and \<open>config.value = defaultConfig\<close> make \<open>config.value\<close> refer to
  that one object (through a reactive proxy, whose writes reach the object), while
  \<open>config.value = result.data\<close> makes it refer to a new object. So there are two
  objects to tell apart. \<open>configIsDefault\<close> says that \<open>config.value\<close> refers to
  \<open>DEFAULT_CONFIG\<close>, whose content is then \<open>config\<close> itself; \<open>defaultAside\<close> is the content
  of \<open>DEFAULT_CONFIG\<close> while \<open>config.value\<close> refers to the other object.
\<close>

record config_objects = config_store +
  configIsDefault :: bool
  defaultAside :: Config

definition default_content :: "config_objects \<Rightarrow> Config" where
  "default_content st = (if configIsDefault st then config st else defaultAside st)"

text \<open>The module after it is loaded; the parameter is the content \<open>DEFAULT_CONFIG\<close> is written with.\<close>

definition store_init :: "Config \<Rightarrow> config_objects" where
  "store_init hardcoded =
     \<lparr>config = hardcoded, configLoading = False, trace = [],
      configIsDefault = True, defaultAside = hardcoded\<rparr>"

definition refreshConfig :: "Config response \<Rightarrow> config_objects \<Rightarrow> config_objects" where
  "refreshConfig result st =
     (let st1 = st\<lparr>configLoading := True, trace := trace st @ [GetLocalConfig]\<rparr>;
          st2 = (case result of
                   Ok data \<Rightarrow>
                     st1\<lparr>defaultAside := default_content st1, config := data,
                         configIsDefault := False\<rparr>
                 | Err e \<Rightarrow>
                     st1\<lparr>trace := trace st1 @
                            [LogError (''Failed to load config: Error: '' @ e),
                             Notify Error (Tr ''error.config_load_failed'')],
                         config := default_content st1, configIsDefault := True\<rparr>
                 | Throws e \<Rightarrow>
                     st1\<lparr>trace := trace st1 @
                            [LogError (''Failed to load config: '' @ e),
                             Notify Error (Tr ''error.config_load_failed'')],
                         config := default_content st1, configIsDefault := True\<rparr>)
      in st2\<lparr>configLoading := False\<rparr>)"

text \<open>
  A write in place to \<open>config.value\<close> by a page, such as \<open>ensureQuickActionDefaults()\<close>,
  which \<open>load_config\<close> runs right after \<open>refreshConfig()\<close>, or a setter of the sound
  fields: \<open>f\<close> is what the write does to the document.
\<close>

definition edit_config :: "(Config \<Rightarrow> Config) \<Rightarrow> config_objects \<Rightarrow> config_objects" where
  "edit_config f st = st\<lparr>config := f (config st)\<rparr>"

text \<open>
  \<open>saveConfig\<close> submits the document and catches every failure itself: what it adds
  to the trace, for the document \<open>doc\<close> and the backend's answer.
\<close>

definition saveConfig_effects :: "'d \<Rightarrow> unit response \<Rightarrow> 'd effect list" where
  "saveConfig_effects doc result =
     SetConfig doc #
     (case result of
        Ok u \<Rightarrow> []
      | Err e \<Rightarrow> [LogError (''Failed to set config: Error: '' @ e),
                  Notify Error (Tr ''error.set_config_failed'')]
      | Throws e \<Rightarrow> [LogError (''Failed to set config: '' @ e),
                     Notify Error (Tr ''error.set_config_failed'')])"

definition saveConfig :: "unit response \<Rightarrow> config_store \<Rightarrow> config_store" where
  "saveConfig result st = st\<lparr>trace := trace st @ saveConfig_effects (config st) result\<rparr>"

definition failed :: "'a response \<Rightarrow> bool" where
  "failed result = (case result of Ok data \<Rightarrow> False | Err e \<Rightarrow> True | Throws e \<Rightarrow> True)"

section \<open>Settings page (pages/Settings.vue)\<close>

subsection \<open>Quick-action sound preferences\<close>

definition ensureQuickActionDefaults :: "Config \<Rightarrow> Config" where
  "ensureQuickActionDefaults c =
     (case quick_action c of
        None \<Rightarrow> c
      | Some settings \<Rightarrow>
          (let s1 = (if enable_sound settings = None
                     then settings\<lparr>enable_sound := Some True\<rparr> else settings);
               s2 = (if enable_notification s1 = None
                     then s1\<lparr>enable_notification := Some True\<rparr> else s1);
               s3 = (if sounds s2 = None
                     then s2\<lparr>sounds := Some \<lparr>success = Some Default, failure = Some Default\<rparr>\<rparr>
                     else s2)
           in c\<lparr>quick_action := Some s3\<rparr>))"

text \<open>
  \<open>ensureSoundSlots\<close> normalises and returns \<open>config.value?.quick_action?.sounds\<close>; the
  slots object it returns is the one inside the configuration, so the setters below
  write into the configuration.
\<close>

definition ensureSoundSlots :: "Config \<Rightarrow> Config \<times> QuickActionSoundSlots option" where
  "ensureSoundSlots c =
     (let c1 = ensureQuickActionDefaults c
      in (c1, case quick_action c1 of None \<Rightarrow> None | Some settings \<Rightarrow> sounds settings))"

definition set_slots :: "QuickActionSoundSlots \<Rightarrow> Config \<Rightarrow> Config" where
  "set_slots slots c =
     (case quick_action c of
        None \<Rightarrow> c
      | Some settings \<Rightarrow> c\<lparr>quick_action := Some (settings\<lparr>sounds := Some slots\<rparr>)\<rparr>)"

definition isFileSource :: "QuickActionSoundSource option \<Rightarrow> bool" where
  "isFileSource source = (case source of Some (File p) \<Rightarrow> True | _ \<Rightarrow> False)"

text \<open>\<^verbatim>\<open>isFileSource(source) ? source.path ?? "" : ""\<close>\<close>

definition file_path_or_empty :: "QuickActionSoundSource option \<Rightarrow> string" where
  "file_path_or_empty source =
     (if isFileSource source
      then (case source of Some (File (Some p)) \<Rightarrow> p | _ \<Rightarrow> [])
      else [])"

datatype SoundModeOption = ModeDefault | ModeFile

definition success_slot :: "Config \<Rightarrow> QuickActionSoundSource option" where
  "success_slot c =
     (case quick_action c of
        None \<Rightarrow> None
      | Some settings \<Rightarrow> (case sounds settings of None \<Rightarrow> None | Some slots \<Rightarrow> success slots))"

definition failure_slot :: "Config \<Rightarrow> QuickActionSoundSource option" where
  "failure_slot c =
     (case quick_action c of
        None \<Rightarrow> None
      | Some settings \<Rightarrow> (case sounds settings of None \<Rightarrow> None | Some slots \<Rightarrow> failure slots))"

definition successSoundMode_get :: "Config \<Rightarrow> SoundModeOption" where
  "successSoundMode_get c = (if isFileSource (success_slot c) then ModeFile else ModeDefault)"

definition successSoundMode_set :: "SoundModeOption \<Rightarrow> Config \<Rightarrow> Config" where
  "successSoundMode_set mode c =
     (case ensureSoundSlots c of
        (c1, None) \<Rightarrow> c1
      | (c1, Some slots) \<Rightarrow>
          if mode = ModeDefault then set_slots (slots\<lparr>success := Some Default\<rparr>) c1
          else (let current = success slots;
                    existingPath = file_path_or_empty current
                in set_slots (slots\<lparr>success := Some (File (Some existingPath))\<rparr>) c1))"

definition failureSoundMode_get :: "Config \<Rightarrow> SoundModeOption" where
  "failureSoundMode_get c = (if isFileSource (failure_slot c) then ModeFile else ModeDefault)"

definition failureSoundMode_set :: "SoundModeOption \<Rightarrow> Config \<Rightarrow> Config" where
  "failureSoundMode_set mode c =
     (case ensureSoundSlots c of
        (c1, None) \<Rightarrow> c1
      | (c1, Some slots) \<Rightarrow>
          if mode = ModeDefault then set_slots (slots\<lparr>failure := Some Default\<rparr>) c1
          else (let current = failure slots;
                    existingPath = file_path_or_empty current
                in set_slots (slots\<lparr>failure := Some (File (Some existingPath))\<rparr>) c1))"

definition successSoundPath_get :: "Config \<Rightarrow> string" where
  "successSoundPath_get c = file_path_or_empty (success_slot c)"

definition successSoundPath_set :: "string \<Rightarrow> Config \<Rightarrow> Config" where
  "successSoundPath_set v c =
     (case ensureSoundSlots c of
        (c1, None) \<Rightarrow> c1
      | (c1, Some slots) \<Rightarrow> set_slots (slots\<lparr>success := Some (File (Some v))\<rparr>) c1)"

definition failureSoundPath_get :: "Config \<Rightarrow> string" where
  "failureSoundPath_get c = file_path_or_empty (failure_slot c)"

definition failureSoundPath_set :: "string \<Rightarrow> Config \<Rightarrow> Config" where
  "failureSoundPath_set v c =
     (case ensureSoundSlots c of
        (c1, None) \<Rightarrow> c1
      | (c1, Some slots) \<Rightarrow> set_slots (slots\<lparr>failure := Some (File (Some v))\<rparr>) c1)"

subsection \<open>Bulk import of paths from another device\<close>

text \<open>
  \<^verbatim>\<open>if (savePath.paths[deviceId]) {
      savePath.paths[currentDeviceId] = savePath.paths[deviceId]; }\<close>
  The test is the truthiness of the source entry; nothing is asked of the current
  device's entry. The same statement is applied to \<open>game.game_paths\<close>.
\<close>

definition import_paths :: "string \<Rightarrow> string \<Rightarrow> paths_obj \<Rightarrow> paths_obj" where
  "import_paths deviceId currentDeviceId m =
     (case map_of m deviceId of
        None \<Rightarrow> m
      | Some p \<Rightarrow> if truthy p then AList.update currentDeviceId p m else m)"

definition import_unit :: "string \<Rightarrow> string \<Rightarrow> SaveUnit \<Rightarrow> SaveUnit" where
  "import_unit deviceId currentDeviceId savePath =
     (case paths savePath of
        None \<Rightarrow> savePath
      | Some m \<Rightarrow> savePath\<lparr>paths := Some (import_paths deviceId currentDeviceId m)\<rparr>)"

definition import_game :: "string \<Rightarrow> string \<Rightarrow> Game \<Rightarrow> Game" where
  "import_game deviceId currentDeviceId g =
     (let g1 = (case save_paths g of
                  None \<Rightarrow> g
                | Some units \<Rightarrow> g\<lparr>save_paths := Some (map (import_unit deviceId currentDeviceId) units)\<rparr>)
      in case game_paths g1 of
           None \<Rightarrow> g1
         | Some m \<Rightarrow> g1\<lparr>game_paths := Some (import_paths deviceId currentDeviceId m)\<rparr>)"

definition import_failed :: "string \<Rightarrow> config_store \<Rightarrow> config_store" where
  "import_failed e st =
     st\<lparr>trace := trace st @ [LogError (''Error importing paths: Error: '' @ e),
                               Notify Error (Tr ''error.import_paths_failed'')]\<rparr>"

text \<open>
  \<open>importFromDevice(deviceId)\<close>. The page's \<open>currentDevice\<close> is only read; \<open>confirmed\<close>
  tells whether the confirmation box resolved (a dismissed box rejects with a value
  that is not an \<open>Error\<close>); \<open>result\<close> is the backend's answer to \<open>setConfig\<close>.
\<close>

definition importFromDevice :: "Device \<Rightarrow> string \<Rightarrow> bool \<Rightarrow> unit response \<Rightarrow> config_store \<Rightarrow> config_store" where
  "importFromDevice currentDevice deviceId confirmed result st =
     (let st0 = st\<lparr>trace := trace st @
                   [ConfirmBox (Tr ''settings.import_paths_confirm'') (Tr ''settings.import_paths_title'')]\<rparr>
      in if \<not> confirmed
         then st0\<lparr>trace := trace st0 @ [Notify Info (Tr ''settings.operation_canceled'')]\<rparr>
         else (let currentDeviceId = dev_id currentDevice
               in case games (config st0) of
                    None \<Rightarrow> import_failed ''Current device or config not available'' st0
                  | Some gs \<Rightarrow>
                      if \<not> truthy currentDeviceId
                      then import_failed ''Current device or config not available'' st0
                      else if currentDeviceId = deviceId
                      then import_failed ''Cannot import from the same device'' st0
                      else (let st1 = st0\<lparr>config := (config st0)
                                          \<lparr>games := Some (map (import_game deviceId currentDeviceId) gs)\<rparr>\<rparr>;
                                st2 = saveConfig result st1
                            in st2\<lparr>trace := trace st2 @
                                      [Notify Success (Tr ''settings.import_paths_success'')]\<rparr>)))"

section \<open>Game management page (pages/Management/[name].vue)\<close>

text \<open>
  \<open>game.value\<close> is set to \<open>config.value.games.find(...)\<close>: the page's game is the very
  object that sits in the configuration's array, or \<open>undefined\<close>, or (before the first
  navigation, or after the drawer has saved) an object of its own. Games are therefore
  kept in a store of objects; the configuration's \<open>games\<close> array and the page's \<open>game\<close>
  hold addresses. Save units and path tables are reached only through their game and
  are part of its value.
\<close>

record mgmt_state =
  heap :: "nat \<Rightarrow> Game"
  config_games :: "nat list"
  game :: "nat option"
  currentDevice :: "Device option"
  drawer :: bool
  effects :: "Game list effect list"

text \<open>The configuration document as the backend would receive it.\<close>

definition config_doc :: "mgmt_state \<Rightarrow> Game list" where
  "config_doc s = map (heap s) (config_games s)"

definition fetchCurrentDevice :: "Device response \<Rightarrow> mgmt_state \<Rightarrow> mgmt_state" where
  "fetchCurrentDevice result s =
     (let s1 = s\<lparr>effects := effects s @ [GetCurrentDeviceInfo]\<rparr>
      in case result of
           Ok data \<Rightarrow> s1\<lparr>currentDevice := Some data\<rparr>
         | Err e \<Rightarrow> s1\<lparr>effects := effects s1 @ [Notify Error (Lit e)]\<rparr>
         | Throws e \<Rightarrow>
             s1\<lparr>effects := effects s1 @
                    [LogError (''Error getting current device info: '' @ e),
                     Notify Error (Tr ''error.get_device_info_failed'')]\<rparr>)"

text \<open>\<open>Array.prototype.findIndex\<close>; \<open>None\<close> is the result -1.\<close>

fun findIndex :: "('a \<Rightarrow> bool) \<Rightarrow> 'a list \<Rightarrow> nat option" where
  "findIndex P [] = None"
| "findIndex P (x # xs) =
     (if P x then Some 0 else (case findIndex P xs of None \<Rightarrow> None | Some i \<Rightarrow> Some (Suc i)))"

text \<open>
  The statement applied to one table by \<open>copyPathsFromDevice\<close>, with the flag it sets:
  \<^verbatim>\<open>if (paths?.[sourceDeviceId]?.trim()) {
      if (!paths[targetDeviceId] || !paths[targetDeviceId].trim()) {
          paths[targetDeviceId] = paths[sourceDeviceId]; updated = true; } }\<close>
\<close>

definition copy_paths :: "string \<Rightarrow> string \<Rightarrow> paths_obj \<Rightarrow> paths_obj \<times> bool" where
  "copy_paths sourceDeviceId targetDeviceId m =
     (case map_of m sourceDeviceId of
        None \<Rightarrow> (m, False)
      | Some sp \<Rightarrow>
          if truthy (trim sp)
          then (if (case map_of m targetDeviceId of
                      None \<Rightarrow> True
                    | Some tp \<Rightarrow> \<not> truthy tp \<or> \<not> truthy (trim tp))
                then (AList.update targetDeviceId sp m, True)
                else (m, False))
          else (m, False))"

definition copy_unit :: "string \<Rightarrow> string \<Rightarrow> SaveUnit \<Rightarrow> SaveUnit \<times> bool" where
  "copy_unit sourceDeviceId targetDeviceId unit =
     (case paths unit of
        None \<Rightarrow> (unit, False)
      | Some m \<Rightarrow>
          (let (m', changed) = copy_paths sourceDeviceId targetDeviceId m
           in (unit\<lparr>paths := Some m'\<rparr>, changed)))"

text \<open>The \<open>forEach\<close> over the save units; the flag is the \<open>updated\<close> variable.\<close>

fun copy_units :: "string \<Rightarrow> string \<Rightarrow> SaveUnit list \<Rightarrow> SaveUnit list \<times> bool" where
  "copy_units sourceDeviceId targetDeviceId [] = ([], False)"
| "copy_units sourceDeviceId targetDeviceId (unit # units) =
     (let (unit', changed) = copy_unit sourceDeviceId targetDeviceId unit;
          (units', updated) = copy_units sourceDeviceId targetDeviceId units
      in (unit' # units', changed \<or> updated))"

definition copy_game :: "string \<Rightarrow> string \<Rightarrow> Game \<Rightarrow> Game \<times> bool" where
  "copy_game sourceDeviceId targetDeviceId g =
     (let (g1, updated1) =
            (case save_paths g of
               None \<Rightarrow> (g, False)
             | Some units \<Rightarrow>
                 (let (units', updated) = copy_units sourceDeviceId targetDeviceId units
                  in (g\<lparr>save_paths := Some units'\<rparr>, updated)));
          (g2, updated2) =
            (case game_paths g1 of
               None \<Rightarrow> (g1, False)
             | Some m \<Rightarrow>
                 (let (m', changed) = copy_paths sourceDeviceId targetDeviceId m
                  in (g1\<lparr>game_paths := Some m'\<rparr>, changed)))
      in (g2, updated1 \<or> updated2))"

text \<open>
  \<open>copyPathsFromDevice(sourceDeviceId)\<close>; \<open>result\<close> is the backend's answer to
  \<open>setConfig\<close>. \<open>saveConfig\<close> catches its own failures, so the \<open>catch\<close> around it is
  never entered.
\<close>

definition copyPathsFromDevice :: "string \<Rightarrow> unit response \<Rightarrow> mgmt_state \<Rightarrow> mgmt_state" where
  "copyPathsFromDevice sourceDeviceId result s =
     (case (currentDevice s, game s) of
        (Some dev, Some a) \<Rightarrow>
          (let targetDeviceId = dev_id dev;
               (g', updated) = copy_game sourceDeviceId targetDeviceId (heap s a);
               s1 = s\<lparr>heap := (heap s)(a := g')\<rparr>
           in if updated
              then (case findIndex (\<lambda>b. name (heap s1 b) = name (heap s1 a)) (config_games s1) of
                      None \<Rightarrow> s1
                    | Some index \<Rightarrow>
                        (let s2 = s1\<lparr>config_games := (config_games s1)[index := a]\<rparr>;
                             s3 = s2\<lparr>effects := effects s2 @ saveConfig_effects (config_doc s2) result\<rparr>
                         in s3\<lparr>effects := effects s3 @
                                   [Notify Success (Tr ''manage.paths_copied_success'')],
                               drawer := True\<rparr>))
              else s1)
      | _ \<Rightarrow> s)"

text \<open>
  \<open>devicesWithPaths\<close> is a \<open>Set\<close>: a list without repetition, in insertion order.
\<close>

definition set_add :: "'a \<Rightarrow> 'a list \<Rightarrow> 'a list" where
  "set_add x xs = (if x \<in> set xs then xs else xs @ [x])"

definition collect_unit :: "string \<Rightarrow> SaveUnit \<Rightarrow> string list \<Rightarrow> string list" where
  "collect_unit deviceId unit acc =
     (case paths unit of
        None \<Rightarrow> acc
      | Some m \<Rightarrow>
          fold (\<lambda>(i, path) acc. if i \<noteq> deviceId \<and> truthy path \<and> trim path \<noteq> []
                                then set_add i acc else acc) m acc)"

definition devicesWithPaths :: "string \<Rightarrow> SaveUnit list \<Rightarrow> string list" where
  "devicesWithPaths deviceId units = fold (collect_unit deviceId) units []"

definition allPathsEmpty :: "string \<Rightarrow> SaveUnit list \<Rightarrow> bool" where
  "allPathsEmpty deviceId units =
     list_all (\<lambda>unit. case paths unit of
                         None \<Rightarrow> True
                       | Some m \<Rightarrow> (case map_of m deviceId of
                                      None \<Rightarrow> True
                                    | Some p \<Rightarrow> \<not> truthy p \<or> trim p = [])) units"

definition startsWith :: "string \<Rightarrow> string \<Rightarrow> bool" where
  "startsWith s v = (take (length v) s = v)"

fun str_includes :: "string \<Rightarrow> string \<Rightarrow> bool" where
  "str_includes [] v = (v = [])"
| "str_includes (c # s) v = (startsWith (c # s) v \<or> str_includes s v)"

text \<open>
  \<open>checkCurrentDeviceSavePaths()\<close>. The outside world answers through the parameters:
  \<open>info\<close> for \<open>getCurrentDeviceInfo\<close>, \<open>confirm_answer\<close> for the confirmation box
  (\<open>None\<close> when it rejects), \<open>prompt_answer\<close> for the value typed into the selection
  prompt (\<open>None\<close> when it rejects), \<open>result\<close> for \<open>setConfig\<close>.
\<close>

definition checkCurrentDeviceSavePaths ::
  "Device response \<Rightarrow> string option \<Rightarrow> string option \<Rightarrow> unit response \<Rightarrow> mgmt_state \<Rightarrow> mgmt_state" where
  "checkCurrentDeviceSavePaths info confirm_answer prompt_answer result s =
     (let s1 = fetchCurrentDevice info s
      in case (currentDevice s1, game s1) of
           (Some dev, Some a) \<Rightarrow>
             (case save_paths (heap s1 a) of
                None \<Rightarrow> s1
              | Some units \<Rightarrow>
                  (let deviceId = dev_id dev
                   in if \<not> allPathsEmpty deviceId units then s1
                      else (let devs = devicesWithPaths deviceId units
                            in if length devs = 0 then s1
                               else (let s2 = s1\<lparr>effects := effects s1 @
                                                [ConfirmBox (Tr ''manage.empty_paths_prompt'')
                                                            (Tr ''manage.empty_paths_title'')]\<rparr>
                                     in case confirm_answer of
                                          None \<Rightarrow> s2
                                        | Some confirmResult \<Rightarrow>
                                            if confirmResult \<noteq> ''confirm'' then s2
                                            else (let deviceOptions = map (\<lambda>i. (i, take 8 i @ ''...'')) devs
                                                  in if length deviceOptions = 1
                                                     then copyPathsFromDevice (fst (hd deviceOptions)) result s2
                                                     else (let s3 = s2\<lparr>effects := effects s2 @ [PromptBox deviceOptions]\<rparr>
                                                           in case prompt_answer of
                                                                None \<Rightarrow> s3
                                                              | Some v \<Rightarrow>
                                                                  (case find (\<lambda>(dv, dl). dv = v \<or> startsWith dv v \<or> str_includes dl v)
                                                                          deviceOptions of
                                                                     None \<Rightarrow> s3
                                                                   | Some (dv, dl) \<Rightarrow> copyPathsFromDevice dv result s3)))))))
         | _ \<Rightarrow> s1)"

text \<open>What a trace shows of prompting and of saving.\<close>

fun is_prompt :: "'d effect \<Rightarrow> bool" where
  "is_prompt (ConfirmBox m t) = True"
| "is_prompt (PromptBox opts) = True"
| "is_prompt e = False"

fun is_save :: "'d effect \<Rightarrow> bool" where
  "is_save (SetConfig doc) = True"
| "is_save e = False"

text \<open>
  Vocabulary of the statements about paths: an entry is \<open>nonblank\<close> when it is present
  and something is left of it after trimming; a game has no path from another device
  when every entry of every save unit under another id is blank.
\<close>

definition nonblank :: "string option \<Rightarrow> bool" where
  "nonblank v = (case v of None \<Rightarrow> False | Some p \<Rightarrow> trim p \<noteq> [])"

definition no_other_device_path :: "string \<Rightarrow> SaveUnit list \<Rightarrow> bool" where
  "no_other_device_path deviceId units =
     list_all (\<lambda>unit. case paths unit of
                         None \<Rightarrow> True
                       | Some m \<Rightarrow> list_all (\<lambda>(i, p). i = deviceId \<or> trim p = []) m) units"

text \<open>
  A page state for examples: device \<open>B\<close> is the current device, the page's game is the
  configuration's only game and has one save unit with the given path table, and the
  given launch paths.
\<close>

definition ex_unit :: "paths_obj \<Rightarrow> SaveUnit" where
  "ex_unit unit_paths = \<lparr>unit_type = ''Folder'', delete_before_apply = False, paths = Some unit_paths\<rparr>"

definition ex_state :: "paths_obj \<Rightarrow> paths_obj \<Rightarrow> mgmt_state" where
  "ex_state unit_paths launch_paths =
     \<lparr>heap = (\<lambda>a. \<lparr>name = ''g'', save_paths = Some [ex_unit unit_paths],
                    game_paths = Some launch_paths\<rparr>),
      config_games = [0], game = Some 0,
      currentDevice = Some \<lparr>dev_id = ''B'', dev_name = ''pc''\<rparr>,
      drawer = False, effects = []\<rparr>"

section \<open>Verification: loading stack\<close>

lemma call_ids_append: "call_ids (xs @ ys) = call_ids xs @ call_ids ys"
  by (induction xs rule: call_ids.induct) auto

lemma settled_ids_append: "settled_ids (xs @ ys) = settled_ids xs @ settled_ids ys"
  by (induction xs rule: settled_ids.induct) auto

lemma loading_inv_init: "loading_inv [] loading_init"
  by (simp add: loading_inv_def loading_init_def pending_def)

lemma loading_inv_call:
  assumes "loading_inv tr s" "loading_step (Call i mo) s = Some s'"
  shows "loading_inv (tr @ [Call i mo]) s'"
proof -
  from assms(2) have fresh: "i \<notin> set (awaiting s)" "i \<notin> fst ` set (returned s)"
    and s': "s' = withLoading_enter i mo s"
    by (auto simp: loading_step_def split: if_splits)
  from assms(1) fresh have "i \<notin> set (call_ids tr)"
    by (auto simp: loading_inv_def pending_def)
  with assms(1) fresh show ?thesis
    by (auto simp: s' loading_inv_def pending_def withLoading_enter_def startLoading_def
        call_ids_append settled_ids_append)
qed

lemma length_removeAll_distinct:
  "distinct xs \<Longrightarrow> i \<in> set xs \<Longrightarrow> length (removeAll i xs) + 1 = length xs"
  by (induction xs) auto

lemma removeAll_filter_notin:
  "removeAll i (filter (\<lambda>j. j \<notin> A) xs) = filter (\<lambda>j. j \<notin> insert i A) xs"
  by (induction xs) auto

lemma loading_inv_settled:
  assumes "loading_inv tr s" "loading_step (Settled i outcome) s = Some s'"
  shows "loading_inv (tr @ [Settled i outcome]) s'"
proof -
  from assms(2) have mem: "i \<in> set (awaiting s)"
    and s': "s' = withLoading_exit i outcome s"
    by (auto simp: loading_step_def split: if_splits)
  from assms(1) have d: "distinct (awaiting s)"
    by (simp add: loading_inv_def pending_def)
  have len: "length (removeAll i (awaiting s)) + 1 = length (awaiting s)"
    using d mem by (rule length_removeAll_distinct)
  from mem have ne: "awaiting s \<noteq> []" by auto
  have aw: "removeAll i (awaiting s) = pending (tr @ [Settled i outcome])"
    using assms(1)
    by (simp add: loading_inv_def pending_def call_ids_append settled_ids_append
        removeAll_filter_notin)
  have st: "length (stopLoading (messageStack s)) + 1 = length (messageStack s)"
    using assms(1) ne by (cases "messageStack s") (auto simp: loading_inv_def stopLoading_def)
  show ?thesis
    using assms(1) aw st len
    by (simp add: s' loading_inv_def withLoading_exit_def call_ids_append settled_ids_append)
qed

lemma loading_inv_step:
  "loading_inv tr s \<Longrightarrow> loading_step e s = Some s' \<Longrightarrow> loading_inv (tr @ [e]) s'"
  by (cases e) (auto intro: loading_inv_call loading_inv_settled)

lemma loading_inv_run:
  "loading_run es s = Some s' \<Longrightarrow> loading_inv tr s \<Longrightarrow> loading_inv (tr @ es) s'"
proof (induction es arbitrary: s tr)
  case Nil
  then show ?case by simp
next
  case (Cons e es)
  from Cons.prems(1) obtain s1 where s1: "loading_step e s = Some s1" "loading_run es s1 = Some s'"
    by (auto split: option.splits)
  from loading_inv_step[OF Cons.prems(2) s1(1)] have "loading_inv (tr @ [e]) s1" .
  from Cons.IH[OF s1(2) this] show ?case by simp
qed

text \<open>
  Claim C3 (loading-stack balance). For every run of overlapping \<open>withLoading\<close> calls,
  whatever the order in which the operations resolve or reject: the stack holds one
  message per call that has started and not yet settled, so \<open>isLoading\<close> is true
  exactly when such a call exists and is false once every call has settled; a call
  pushes its message before its operation runs; and when an operation settles, with
  a value or with an error, exactly one message is popped and the outcome is passed on.
\<close>

theorem withLoading_balance:
  assumes "loading_run tr loading_init = Some s"
  shows "length (messageStack s) = length (pending tr) \<and>
         (isLoading (messageStack s) \<longleftrightarrow> (\<exists>i \<in> set (call_ids tr). i \<notin> set (settled_ids tr))) \<and>
         (set (call_ids tr) \<subseteq> set (settled_ids tr) \<longrightarrow> \<not> isLoading (messageStack s)) \<and>
         (\<forall>i mo s'. loading_step (Call i mo) s = Some s' \<longrightarrow>
            messageStack s' = messageStack s @ [case mo of None \<Rightarrow> Tr ''common.operation_in_progress'' | Some m \<Rightarrow> m] \<and>
            i \<in> set (awaiting s')) \<and>
         (\<forall>i outcome s'. loading_step (Settled i outcome) s = Some s' \<longrightarrow>
            length (messageStack s') + 1 = length (messageStack s) \<and>
            (i, outcome) \<in> set (returned s') \<and> i \<notin> set (awaiting s'))"
proof -
  have inv: "loading_inv tr s"
    using loading_inv_run[OF assms loading_inv_init] by simp
  have a: "length (messageStack s) = length (pending tr)"
    using inv by (simp add: loading_inv_def)
  have b: "isLoading (messageStack s) \<longleftrightarrow> (\<exists>i \<in> set (call_ids tr). i \<notin> set (settled_ids tr))"
    unfolding isLoading_def a by (auto simp: pending_def filter_empty_conv)
  have c: "set (call_ids tr) \<subseteq> set (settled_ids tr) \<longrightarrow> \<not> isLoading (messageStack s)"
    using b by auto
  have d: "\<forall>i mo s'. loading_step (Call i mo) s = Some s' \<longrightarrow>
            messageStack s' = messageStack s @ [case mo of None \<Rightarrow> Tr ''common.operation_in_progress'' | Some m \<Rightarrow> m] \<and>
            i \<in> set (awaiting s')"
    by (auto simp: loading_step_def withLoading_enter_def startLoading_def split: if_splits)
  have e: "\<forall>i outcome s'. loading_step (Settled i outcome) s = Some s' \<longrightarrow>
            length (messageStack s') + 1 = length (messageStack s) \<and>
            (i, outcome) \<in> set (returned s') \<and> i \<notin> set (awaiting s')"
  proof (intro allI impI)
    fix i outcome s'
    assume st: "loading_step (Settled i outcome) s = Some s'"
    from st have mem: "i \<in> set (awaiting s)" and s': "s' = withLoading_exit i outcome s"
      by (auto simp: loading_step_def split: if_splits)
    from mem inv have "messageStack s \<noteq> []"
      by (auto simp: loading_inv_def)
    then have "length (messageStack s') + 1 = length (messageStack s)"
      by (simp add: s' withLoading_exit_def stopLoading_def)
    moreover from st have "(i, outcome) \<in> set (returned s') \<and> i \<notin> set (awaiting s')"
      by (auto simp: loading_step_def withLoading_exit_def split: if_splits)
    ultimately show "length (messageStack s') + 1 = length (messageStack s) \<and>
            (i, outcome) \<in> set (returned s') \<and> i \<notin> set (awaiting s')" by simp
  qed
  from a b c d e show ?thesis by blast
qed

theorem withLoading_balance_witness:
  "loading_run [Call 0 (Some (Lit ''a'')), Call 1 None, Settled 0 (Reject ''boom''), Settled 1 (Resolve ())]
      loading_init
    = Some \<lparr>messageStack = [], awaiting = [], returned = [(0, Reject ''boom''), (1, Resolve ())]\<rparr>
   \<and> \<not> isLoading []"
  using withLoading_balance[of "[Call 0 (Some (Lit ''a'')), Call 1 None, Settled 0 (Reject ''boom''), Settled 1 (Resolve ())]"
      "\<lparr>messageStack = [], awaiting = [], returned = [(0, Reject ''boom''), (1, Resolve ())]\<rparr>"]
  by (simp add: loading_init_def loading_step_def withLoading_enter_def withLoading_exit_def
      startLoading_def stopLoading_def isLoading_def)

section \<open>Verification: notification queue\<close>

lemma enqueued_append: "enqueued (xs @ ys) = enqueued xs @ enqueued ys"
  by (induction xs rule: enqueued.induct) auto

lemma spaced_snoc:
  "spaced ts \<Longrightarrow> (\<forall>t \<in> set ts. t + 100 \<le> u) \<Longrightarrow> spaced (ts @ [u])"
  unfolding spaced_def
  by (auto simp: nth_append less_Suc_eq)

lemma spaced_butlast: "spaced (ts @ [u]) \<Longrightarrow> spaced ts"
  unfolding spaced_def
proof (intro allI impI)
  fix k assume a: "\<forall>k. Suc k < length (ts @ [u]) \<longrightarrow> (ts @ [u]) ! k + 100 \<le> (ts @ [u]) ! Suc k"
    and k: "Suc k < length ts"
  from a k have "(ts @ [u]) ! k + 100 \<le> (ts @ [u]) ! Suc k" by simp
  with k show "ts ! k + 100 \<le> ts ! Suc k" by (simp add: nth_append)
qed

lemma spaced_last: "spaced (ts @ [u]) \<Longrightarrow> t \<in> set ts \<Longrightarrow> t + 100 \<le> u"
proof (induction ts arbitrary: u t rule: rev_induct)
  case Nil
  then show ?case by simp
next
  case (snoc a ts)
  have au: "a + 100 \<le> u"
    using snoc.prems(1) unfolding spaced_def
    by (drule_tac x = "length ts" in spec) (simp add: nth_append)
  show ?case
  proof (cases "t = a")
    case True with au show ?thesis by simp
  next
    case False
    with snoc.prems(2) have "t \<in> set ts" by simp
    moreover have "spaced (ts @ [a])" using snoc.prems(1) spaced_butlast[of "ts @ [a]" u] by simp
    ultimately have "t + 100 \<le> a" by (rule snoc.IH[rotated])
    with au show ?thesis by simp
  qed
qed

lemma spaced_le_last: "spaced ts \<Longrightarrow> t \<in> set ts \<Longrightarrow> t \<le> last ts"
proof (cases ts rule: rev_cases)
  case Nil
  assume "t \<in> set ts" with Nil show ?thesis by simp
next
  case (snoc ys y)
  assume sp: "spaced ts" and t: "t \<in> set ts"
  show ?thesis
  proof (cases "t = y")
    case True with snoc show ?thesis by simp
  next
    case False
    with t snoc have "t \<in> set ys" by simp
    with sp snoc have "t + 100 \<le> y" using spaced_last by blast
    with snoc show ?thesis by simp
  qed
qed

lemma notify_inv_init: "notify_inv [] notify_init"
  by (simp add: notify_inv_def notify_init_def spaced_def)

lemma notify_inv_elapse:
  assumes "notify_inv tr s"
  shows "notify_inv (tr @ [Elapse d]) (s\<lparr>now := now s + d\<rparr>)"
  using assms by (auto simp: notify_inv_def enqueued_append split: if_splits)

lemma notify_inv_show:
  assumes "notify_inv tr s"
  shows "notify_inv (tr @ [ShowCall type opts i]) (addToQueue type opts i s)"
proof (cases "isProcessing s")
  case True
  with assms show ?thesis
    by (auto simp: notify_inv_def addToQueue_def processQueue_def enqueued_append)
next
  case False
  with assms have q: "messageQueue s = []" and t: "timers s = []"
    and old: "\<forall>r \<in> set (rendered s). r_time r + 100 \<le> now s"
    and sp: "spaced (map r_time (rendered s))"
    and en: "map (\<lambda>r. (r_id r, r_params r)) (rendered s) = enqueued tr"
    by (auto simp: notify_inv_def)
  have sp': "spaced (map r_time (rendered s) @ [now s])"
    using sp old by (intro spaced_snoc) auto
  show ?thesis
    using False q t old sp' en assms
    by (auto simp: notify_inv_def addToQueue_def processQueue_def queue_loop_def
        show_notification_def enqueued_append Let_def)
qed

lemma notify_inv_wake:
  assumes "notify_inv tr s" "notify_step (Wake k) s = Some s'"
  shows "notify_inv (tr @ [Wake k]) s'"
proof -
  from assms(2) have k: "k < length (timers s)" "timers s ! k \<le> now s"
    and s': "s' = queue_loop (s\<lparr>timers := take k (timers s) @ drop (Suc k) (timers s)\<rparr>)"
    by (auto simp: notify_step_def split: if_splits)
  from k(1) assms(1) have p: "isProcessing s"
    by (auto simp: notify_inv_def split: if_splits)
  with assms(1) have ne: "rendered s \<noteq> []" and t: "timers s = [r_time (last (rendered s)) + 100]"
    and sp: "spaced (map r_time (rendered s))"
    and le: "\<forall>r \<in> set (rendered s). r_time r \<le> now s"
    and en: "map (\<lambda>r. (r_id r, r_params r)) (rendered s) @
        map (\<lambda>n. (nid n, show_params (ntype n) (options n))) (messageQueue s) = enqueued tr"
    by (auto simp: notify_inv_def)
  from k t have k0: "k = 0" and dl: "r_time (last (rendered s)) + 100 \<le> now s" by auto
  have mono: "\<forall>r \<in> set (rendered s). r_time r \<le> r_time (last (rendered s))"
  proof
    fix r assume "r \<in> set (rendered s)"
    then have "r_time r \<in> set (map r_time (rendered s))" by simp
    from spaced_le_last[OF sp this] ne show "r_time r \<le> r_time (last (rendered s))"
      by (simp add: last_map)
  qed
  with dl have old: "\<forall>r \<in> set (rendered s). r_time r + 100 \<le> now s" by fastforce
  show ?thesis
  proof (cases "messageQueue s")
    case Nil
    with en sp le old t k0 show ?thesis
      by (simp add: s' notify_inv_def queue_loop_def enqueued_append)
  next
    case (Cons n rest)
    have sp': "spaced (map r_time (rendered s) @ [now s])"
      using sp old by (intro spaced_snoc) auto
    from Cons en sp' le t k0 p show ?thesis
      by (auto simp: s' notify_inv_def queue_loop_def show_notification_def enqueued_append Let_def)
  qed
qed

lemma notify_inv_step:
  "notify_inv tr s \<Longrightarrow> notify_step e s = Some s' \<Longrightarrow> notify_inv (tr @ [e]) s'"
proof (cases e)
  case (ShowCall type opts i)
  assume "notify_inv tr s" "notify_step e s = Some s'"
  with ShowCall notify_inv_show[of tr s type opts i] show ?thesis
    by (simp add: notify_step_def)
next
  case (Elapse d)
  assume "notify_inv tr s" "notify_step e s = Some s'"
  with Elapse notify_inv_elapse[of tr s d] show ?thesis
    by (simp add: notify_step_def)
next
  case (Wake k)
  assume "notify_inv tr s" "notify_step e s = Some s'"
  with Wake show ?thesis by (simp add: notify_inv_wake)
qed

lemma notify_inv_run:
  "notify_run es s = Some s' \<Longrightarrow> notify_inv tr s \<Longrightarrow> notify_inv (tr @ es) s'"
proof (induction es arbitrary: s tr)
  case Nil
  then show ?case by simp
next
  case (Cons e es)
  from Cons.prems(1) obtain s1 where s1: "notify_step e s = Some s1" "notify_run es s1 = Some s'"
    by (auto split: option.splits)
  from notify_inv_step[OF Cons.prems(2) s1(1)] have "notify_inv (tr @ [e]) s1" .
  from Cons.IH[OF s1(2) this] show ?case by simp
qed


lemma ticks_Suc: "ticks (Suc n) = [Elapse 100, Wake 0] @ ticks n"
  by (simp add: ticks_def)

lemma notify_run_append:
  "notify_run (xs @ ys) s = (case notify_run xs s of None \<Rightarrow> None | Some s' \<Rightarrow> notify_run ys s')"
  by (induction xs arbitrary: s) (auto split: option.splits)

lemma drain_renders_ids:
  "map (\<lambda>r. (r_id r, r_params r)) (drain_renders t q) =
   map (\<lambda>n. (nid n, show_params (ntype n) (options n))) q"
  by (induction q arbitrary: t) auto

lemma drain_renders_length: "length (drain_renders t q) = length q"
  by (induction q arbitrary: t) auto

lemma drain_renders_time:
  "k < length q \<Longrightarrow> r_time (drain_renders t q ! k) = t + 100 * k"
proof (induction q arbitrary: t k)
  case Nil
  then show ?case by simp
next
  case (Cons n q)
  then show ?case by (cases k) auto
qed

lemma drain_run:
  "isProcessing s \<Longrightarrow> timers s = [now s + 100] \<Longrightarrow> messageQueue s = q \<Longrightarrow>
   notify_run (ticks (Suc (length q))) s =
     Some (s\<lparr>messageQueue := [], activeNotifications := activeNotifications s @ map nid q,
             isProcessing := False, now := now s + 100 * Suc (length q), timers := [],
             rendered := rendered s @ drain_renders (now s + 100) q\<rparr>)"
proof (induction q arbitrary: s)
  case Nil
  then show ?case
    by (simp add: ticks_def notify_step_def queue_loop_def)
next
  case (Cons n q)
  let ?s1 = "queue_loop (s\<lparr>now := now s + 100, timers := []\<rparr>)"
  have step: "notify_run [Elapse 100, Wake 0] s = Some ?s1"
    using Cons.prems by (simp add: notify_step_def)
  have s1: "isProcessing ?s1" "timers ?s1 = [now ?s1 + 100]" "messageQueue ?s1 = q"
    using Cons.prems by (simp_all add: queue_loop_def show_notification_def Let_def)
  have "notify_run (ticks (Suc (length (n # q)))) s = notify_run (ticks (Suc (length q))) ?s1"
    unfolding length_Cons ticks_Suc[of "Suc (length q)"] notify_run_append step by simp
  also note Cons.IH[OF s1]
  finally show ?case
    using Cons.prems by (simp add: queue_loop_def show_notification_def Let_def)
qed

lemma show_calls_while_processing:
  "isProcessing s \<Longrightarrow>
   notify_run (show_calls cs) s =
     Some (s\<lparr>messageQueue := messageQueue s @
               map (\<lambda>(type, opts, i). \<lparr>ntype = type, options = opts, nid = i\<rparr>) cs\<rparr>)"
proof (induction cs arbitrary: s)
  case Nil
  then show ?case by (simp add: show_calls_def)
next
  case (Cons c cs)
  obtain type opts i where c: "c = (type, opts, i)" by (cases c) auto
  let ?s1 = "s\<lparr>messageQueue := messageQueue s @ [\<lparr>ntype = type, options = opts, nid = i\<rparr>]\<rparr>"
  have "notify_step (ShowCall type opts i) s = Some ?s1"
    using Cons.prems by (simp add: notify_step_def addToQueue_def processQueue_def)
  moreover have "isProcessing ?s1" using Cons.prems by simp
  from Cons.IH[OF this] have "notify_run (show_calls cs) ?s1 = Some (?s1\<lparr>messageQueue := messageQueue ?s1 @
               map (\<lambda>(type, opts, i). \<lparr>ntype = type, options = opts, nid = i\<rparr>) cs\<rparr>)" .
  ultimately show ?case
    by (simp add: c show_calls_def)
qed

lemma burst_run:
  "\<exists>s. notify_run (show_calls cs @ ticks (length cs)) notify_init = Some s \<and>
       map (\<lambda>r. (r_id r, r_params r)) (rendered s) = map (\<lambda>(type, opts, i). (i, show_params type opts)) cs \<and>
       (\<forall>k < length cs. r_time (rendered s ! k) = 100 * k) \<and>
       messageQueue s = [] \<and> \<not> isProcessing s \<and> timers s = []"
proof (cases cs)
  case Nil
  then show ?thesis by (simp add: show_calls_def ticks_def notify_init_def)
next
  case (Cons c cs')
  obtain type opts i where c: "c = (type, opts, i)" by (cases c) auto
  let ?q = "map (\<lambda>(type, opts, i). \<lparr>ntype = type, options = opts, nid = i\<rparr>) cs'"
  let ?r0 = "\<lparr>r_time = 0, r_id = i, r_params = show_params type opts\<rparr>"
  let ?s1 = "\<lparr>messageQueue = [], activeNotifications = [i], isProcessing = True,
              now = 0, timers = [100], rendered = [?r0]\<rparr>"
  have first: "notify_step (ShowCall type opts i) notify_init = Some ?s1"
    by (simp add: notify_step_def addToQueue_def processQueue_def queue_loop_def
        show_notification_def notify_init_def Let_def)
  let ?s2 = "?s1\<lparr>messageQueue := ?q\<rparr>"
  have calls: "notify_run (show_calls cs') ?s1 = Some ?s2"
    using show_calls_while_processing[of ?s1 cs'] by simp
  let ?s3 = "?s2\<lparr>messageQueue := [], activeNotifications := activeNotifications ?s2 @ map nid ?q,
             isProcessing := False, now := now ?s2 + 100 * Suc (length ?q), timers := [],
             rendered := rendered ?s2 @ drain_renders (now ?s2 + 100) ?q\<rparr>"
  have drain: "notify_run (ticks (Suc (length ?q))) ?s2 = Some ?s3"
    by (rule drain_run) simp_all
  have run: "notify_run (show_calls cs @ ticks (length cs)) notify_init = Some ?s3"
    using first calls drain
    by (simp add: Cons c notify_run_append show_calls_def)
  have ids: "map (\<lambda>r. (r_id r, r_params r)) (rendered ?s3) = map (\<lambda>(type, opts, i). (i, show_params type opts)) cs"
    by (simp add: Cons c drain_renders_ids comp_def case_prod_beta)
  have times: "\<forall>k < length cs. r_time (rendered ?s3 ! k) = 100 * k"
  proof (intro allI impI)
    fix k assume "k < length cs"
    then show "r_time (rendered ?s3 ! k) = 100 * k"
      by (cases k) (simp_all add: Cons drain_renders_time)
  qed
  from run ids times show ?thesis by simp
qed


text \<open>
  Claim C6 (notification FIFO ordering). For every run of \<open>show*\<close> calls, timer
  firings and passing time: the notifications rendered so far, followed by those still
  queued, are exactly the notifications enqueued, in call order, whatever their types;
  two consecutive renders are at least the 100 ms of the timer apart; at most one
  \<open>processQueue\<close> is suspended at any moment, and while \<open>isProcessing\<close> is set a
  further \<open>processQueue\<close> returns at once. For calls issued synchronously, followed
  by one timer period per call, every notification is rendered, in call order, the
  \<open>k\<close>-th at 100 ms times \<open>k\<close>, and the worker has stopped.
\<close>

theorem notification_fifo:
  "(notify_run tr notify_init = Some s \<longrightarrow>
      map (\<lambda>r. (r_id r, r_params r)) (rendered s) @
        map (\<lambda>n. (nid n, show_params (ntype n) (options n))) (messageQueue s) = enqueued tr \<and>
      spaced (map r_time (rendered s)) \<and>
      length (timers s) = (if isProcessing s then 1 else 0) \<and>
      (isProcessing s \<longrightarrow> processQueue s = s) \<and>
      (\<not> isProcessing s \<longrightarrow> messageQueue s = [])) \<and>
   (\<exists>s'. notify_run (show_calls cs @ ticks (length cs)) notify_init = Some s' \<and>
      map (\<lambda>r. (r_id r, r_params r)) (rendered s') =
        map (\<lambda>(type, opts, i). (i, show_params type opts)) cs \<and>
      (\<forall>k < length cs. r_time (rendered s' ! k) = 100 * k) \<and>
      messageQueue s' = [] \<and> \<not> isProcessing s')"
proof -
  have a: "notify_run tr notify_init = Some s \<longrightarrow>
      map (\<lambda>r. (r_id r, r_params r)) (rendered s) @
        map (\<lambda>n. (nid n, show_params (ntype n) (options n))) (messageQueue s) = enqueued tr \<and>
      spaced (map r_time (rendered s)) \<and>
      length (timers s) = (if isProcessing s then 1 else 0) \<and>
      (isProcessing s \<longrightarrow> processQueue s = s) \<and>
      (\<not> isProcessing s \<longrightarrow> messageQueue s = [])"
  proof
    assume "notify_run tr notify_init = Some s"
    from notify_inv_run[OF this notify_inv_init] have inv: "notify_inv tr s" by simp
    then show "map (\<lambda>r. (r_id r, r_params r)) (rendered s) @
        map (\<lambda>n. (nid n, show_params (ntype n) (options n))) (messageQueue s) = enqueued tr \<and>
      spaced (map r_time (rendered s)) \<and>
      length (timers s) = (if isProcessing s then 1 else 0) \<and>
      (isProcessing s \<longrightarrow> processQueue s = s) \<and>
      (\<not> isProcessing s \<longrightarrow> messageQueue s = [])"
      by (simp add: notify_inv_def processQueue_def split: if_splits)
  qed
  from burst_run[of cs] obtain s' where
    "notify_run (show_calls cs @ ticks (length cs)) notify_init = Some s' \<and>
      map (\<lambda>r. (r_id r, r_params r)) (rendered s') =
        map (\<lambda>(type, opts, i). (i, show_params type opts)) cs \<and>
      (\<forall>k < length cs. r_time (rendered s' ! k) = 100 * k) \<and>
      messageQueue s' = [] \<and> \<not> isProcessing s'" by blast
  with a show ?thesis by blast
qed


theorem notification_fifo_witness:
  "notify_run (show_calls [(Success, \<lparr>title = None, duration = None, message = Lit ''saved'', persistent = None\<rparr>, ''a''),
                           (Error, \<lparr>title = None, duration = None, message = Lit ''failed'', persistent = Some True\<rparr>, ''b'')]
               @ ticks 2) notify_init =
     Some \<lparr>messageQueue = [], activeNotifications = [''a'', ''b''],
            isProcessing = False, now = 200, timers = [],
            rendered =
              [\<lparr>r_time = 0, r_id = ''a'',
                 r_params = \<lparr>p_title = Tr ''misc.success'', p_message = Lit ''saved'',
                             p_type = Success, p_duration = 3000\<rparr>\<rparr>,
               \<lparr>r_time = 100, r_id = ''b'',
                 r_params = \<lparr>p_title = Tr ''misc.error'', p_message = Lit ''failed'',
                             p_type = Error, p_duration = 0\<rparr>\<rparr>]\<rparr>
   \<and> spaced [0, 100]"
proof -
  let ?tr = "show_calls [(Success, \<lparr>title = None, duration = None, message = Lit ''saved'', persistent = None\<rparr>, ''a''),
                           (Error, \<lparr>title = None, duration = None, message = Lit ''failed'', persistent = Some True\<rparr>, ''b'')]
               @ ticks 2"
  let ?s = "\<lparr>messageQueue = [], activeNotifications = [''a'', ''b''],
            isProcessing = False, now = 200, timers = [],
            rendered =
              [\<lparr>r_time = 0, r_id = ''a'',
                 r_params = \<lparr>p_title = Tr ''misc.success'', p_message = Lit ''saved'',
                             p_type = Success, p_duration = 3000\<rparr>\<rparr>,
               \<lparr>r_time = 100, r_id = ''b'',
                 r_params = \<lparr>p_title = Tr ''misc.error'', p_message = Lit ''failed'',
                             p_type = Error, p_duration = 0\<rparr>\<rparr>]\<rparr>"
  have run: "notify_run ?tr notify_init = Some ?s"
    by (simp add: show_calls_def ticks_def notify_step_def addToQueue_def processQueue_def
        queue_loop_def show_notification_def show_params_def notify_init_def Let_def
        numeral_2_eq_2)
  from notification_fifo[where tr = ?tr and s = ?s and cs = "[]"] run
  have "spaced (map r_time (rendered ?s))" by blast
  with run show ?thesis by simp
qed

text \<open>
  Claim C9 (notification duration resolution). The notification that \<open>show\<close> renders
  has the duration given in the options if there is one; otherwise 0 if \<open>persistent\<close>
  is true; otherwise the default of its type, which is 3000 for every type. Its title
  is the title given in the options if there is one, otherwise the default title of
  its type.
\<close>

theorem notification_duration_resolution:
  "p_duration (r_params (last (rendered (show_notification type opts i s)))) =
     (case duration opts of
        Some d \<Rightarrow> d
      | None \<Rightarrow> if persistent opts = Some True then 0 else defaultDurations type) \<and>
   defaultDurations type = 3000 \<and>
   p_title (r_params (last (rendered (show_notification type opts i s)))) =
     (case title opts of Some t \<Rightarrow> t | None \<Rightarrow> defaultTitles type)"
  by (cases type) (simp_all add: show_notification_def show_params_def split: option.splits)

theorem notification_duration_resolution_witness:
  "p_duration (r_params (last (rendered (show_notification Warning
      \<lparr>title = None, duration = None, message = Lit ''m'', persistent = Some False\<rparr> ''x'' notify_init)))) = 3000 \<and>
   p_duration (r_params (last (rendered (show_notification Warning
      \<lparr>title = None, duration = None, message = Lit ''m'', persistent = Some True\<rparr> ''x'' notify_init)))) = 0 \<and>
   p_duration (r_params (last (rendered (show_notification Info
      \<lparr>title = Some (Lit ''T''), duration = Some 0, message = Lit ''m'', persistent = None\<rparr> ''x'' notify_init)))) = 0 \<and>
   p_title (r_params (last (rendered (show_notification Info
      \<lparr>title = Some (Lit ''T''), duration = Some 7, message = Lit ''m'', persistent = Some True\<rparr> ''x'' notify_init)))) = Lit ''T''"
  using notification_duration_resolution[of Warning "\<lparr>title = None, duration = None, message = Lit ''m'', persistent = Some False\<rparr>" "''x''" notify_init]
    notification_duration_resolution[of Warning "\<lparr>title = None, duration = None, message = Lit ''m'', persistent = Some True\<rparr>" "''x''" notify_init]
    notification_duration_resolution[of Info "\<lparr>title = Some (Lit ''T''), duration = Some 0, message = Lit ''m'', persistent = None\<rparr>" "''x''" notify_init]
    notification_duration_resolution[of Info "\<lparr>title = Some (Lit ''T''), duration = Some 7, message = Lit ''m'', persistent = Some True\<rparr>" "''x''" notify_init]
  by simp

section \<open>Verification: config store\<close>

lemma refreshConfig_failure:
  "failed r \<Longrightarrow>
     config (refreshConfig r st) = default_content st \<and>
     configIsDefault (refreshConfig r st) \<and>
     default_content (refreshConfig r st) = default_content st \<and>
     (\<exists>e. trace (refreshConfig r st) =
            trace st @ [GetLocalConfig, LogError e, Notify Error (Tr ''error.config_load_failed'')])"
  by (cases r) (simp_all add: refreshConfig_def failed_def default_content_def Let_def)

lemma refreshConfig_clears_loading: "\<not> configLoading (refreshConfig r st)"
  by (cases r) (simp_all add: refreshConfig_def Let_def)

lemma refreshConfig_success_keeps_default:
  "config (refreshConfig (Ok data) st) = data \<and>
   default_content (refreshConfig (Ok data) st) = default_content st"
  by (simp add: refreshConfig_def default_content_def Let_def)

lemma refreshConfig_failure_twice:
  "failed r \<Longrightarrow> failed r' \<Longrightarrow>
     config (refreshConfig r' (refreshConfig r st)) = config (refreshConfig r st)"
  by (simp add: refreshConfig_failure)

lemma edit_config_default:
  "default_content (edit_config f st) =
     (if configIsDefault st then f (config st) else defaultAside st)"
  by (simp add: edit_config_def default_content_def)

lemma refreshConfig_failure_edit_failure:
  "failed r \<Longrightarrow> failed r' \<Longrightarrow>
     config (refreshConfig r' (edit_config f (refreshConfig r (store_init d)))) = f d"
  by (simp add: refreshConfig_failure edit_config_default)
     (simp add: store_init_def default_content_def)

text \<open>
  Claim C5 (\<open>refreshConfig\<close> failure recovery) says that after every failing
  \<open>refreshConfig\<close> the store holds the hardcoded default document. The code does so
  only until the first write in place: the first failure below leaves the hardcoded
  document; then \<open>ensureQuickActionDefaults\<close> (first run), or the setter of the success
  sound path (second run), writes to \<open>config.value\<close>, which is \<open>DEFAULT_CONFIG\<close> itself;
  and the next failure leaves the document as written to, not the hardcoded one. In
  both runs the loading flag is cleared.
\<close>

theorem refreshConfig_shared_default_run:
  "config (refreshConfig (Err ''io'')
     (store_init \<lparr>games = Some [],
        quick_action = Some \<lparr>enable_sound = None, enable_notification = None, sounds = None\<rparr>\<rparr>))
     = \<lparr>games = Some [],
        quick_action = Some \<lparr>enable_sound = None, enable_notification = None, sounds = None\<rparr>\<rparr> \<and>
   config (refreshConfig (Err ''io'') (edit_config ensureQuickActionDefaults (refreshConfig (Err ''io'')
     (store_init \<lparr>games = Some [],
        quick_action = Some \<lparr>enable_sound = None, enable_notification = None, sounds = None\<rparr>\<rparr>))))
     = \<lparr>games = Some [],
        quick_action = Some \<lparr>enable_sound = Some True, enable_notification = Some True,
          sounds = Some \<lparr>success = Some Default, failure = Some Default\<rparr>\<rparr>\<rparr> \<and>
   config (refreshConfig (Err ''io'') (edit_config ensureQuickActionDefaults (refreshConfig (Err ''io'')
     (store_init \<lparr>games = Some [],
        quick_action = Some \<lparr>enable_sound = None, enable_notification = None, sounds = None\<rparr>\<rparr>))))
     \<noteq> \<lparr>games = Some [],
        quick_action = Some \<lparr>enable_sound = None, enable_notification = None, sounds = None\<rparr>\<rparr> \<and>
   config (refreshConfig (Throws ''boom'') (edit_config (successSoundPath_set ''x.wav'') (refreshConfig (Err ''io'')
     (store_init \<lparr>games = Some [],
        quick_action = Some \<lparr>enable_sound = Some True, enable_notification = Some True,
          sounds = Some \<lparr>success = Some Default, failure = Some Default\<rparr>\<rparr>\<rparr>))))
     = \<lparr>games = Some [],
        quick_action = Some \<lparr>enable_sound = Some True, enable_notification = Some True,
          sounds = Some \<lparr>success = Some (File (Some ''x.wav'')), failure = Some Default\<rparr>\<rparr>\<rparr> \<and>
   config (refreshConfig (Throws ''boom'') (edit_config (successSoundPath_set ''x.wav'') (refreshConfig (Err ''io'')
     (store_init \<lparr>games = Some [],
        quick_action = Some \<lparr>enable_sound = Some True, enable_notification = Some True,
          sounds = Some \<lparr>success = Some Default, failure = Some Default\<rparr>\<rparr>\<rparr>))))
     \<noteq> \<lparr>games = Some [],
        quick_action = Some \<lparr>enable_sound = Some True, enable_notification = Some True,
          sounds = Some \<lparr>success = Some Default, failure = Some Default\<rparr>\<rparr>\<rparr> \<and>
   \<not> configLoading (refreshConfig (Err ''io'') (edit_config ensureQuickActionDefaults (refreshConfig (Err ''io'')
     (store_init \<lparr>games = Some [],
        quick_action = Some \<lparr>enable_sound = None, enable_notification = None, sounds = None\<rparr>\<rparr>))))"
  by (simp add: refreshConfig_def edit_config_def store_init_def default_content_def
      ensureQuickActionDefaults_def successSoundPath_set_def ensureSoundSlots_def set_slots_def
      Let_def)

section \<open>Verification: quick-action sound preferences\<close>

text \<open>
  Claim C4 as stated fails: a \<open>sounds\<close> object that is present but empty passes the
  test \<open>!settings.sounds\<close> and is left alone, so both of its slots are still undefined
  after \<open>ensureQuickActionDefaults\<close>.
\<close>

theorem ensureQuickActionDefaults_partial_counterexample:
  "success_slot (ensureQuickActionDefaults
      \<lparr>games = None,
       quick_action = Some \<lparr>enable_sound = None, enable_notification = None,
                            sounds = Some \<lparr>success = None, failure = None\<rparr>\<rparr>\<rparr>) = None \<and>
   failure_slot (ensureQuickActionDefaults
      \<lparr>games = None,
       quick_action = Some \<lparr>enable_sound = None, enable_notification = None,
                            sounds = Some \<lparr>success = None, failure = None\<rparr>\<rparr>\<rparr>) = None"
  by (simp add: ensureQuickActionDefaults_def success_slot_def failure_slot_def)

text \<open>
  Claim C4, amended (sound-slot presence after normalization). For every
  \<open>quick_action\<close> value, after \<open>ensureQuickActionDefaults\<close> the flags \<open>enable_sound\<close> and
  \<open>enable_notification\<close> are defined, \<open>true\<close> where they were missing, and \<open>sounds\<close> is
  present: a missing \<open>sounds\<close> becomes \<open>{success: {kind: "default"}, failure: {kind:
  "default"}}\<close>, so both slots are then defined; a \<open>sounds\<close> object that is present is
  kept as it is, each slot as defined or undefined as before.
\<close>

theorem ensureQuickActionDefaults_normalizes:
  "quick_action c = Some q \<longrightarrow>
     (\<exists>q'. quick_action (ensureQuickActionDefaults c) = Some q' \<and>
        enable_sound q' = Some (case enable_sound q of None \<Rightarrow> True | Some b \<Rightarrow> b) \<and>
        enable_notification q' = Some (case enable_notification q of None \<Rightarrow> True | Some b \<Rightarrow> b) \<and>
        sounds q' = Some (case sounds q of
                            None \<Rightarrow> \<lparr>success = Some Default, failure = Some Default\<rparr>
                          | Some slots \<Rightarrow> slots)) \<and>
     (sounds q = None \<longrightarrow>
        success_slot (ensureQuickActionDefaults c) = Some Default \<and>
        failure_slot (ensureQuickActionDefaults c) = Some Default) \<and>
     (\<forall>slots. sounds q = Some slots \<longrightarrow>
        success_slot (ensureQuickActionDefaults c) = success slots \<and>
        failure_slot (ensureQuickActionDefaults c) = failure slots)"
  by (auto simp: ensureQuickActionDefaults_def success_slot_def failure_slot_def Let_def
      split: option.splits)

theorem ensureQuickActionDefaults_normalizes_witness:
  "success_slot (ensureQuickActionDefaults
      \<lparr>games = None,
       quick_action = Some \<lparr>enable_sound = Some False, enable_notification = None, sounds = None\<rparr>\<rparr>)
     = Some Default \<and>
   quick_action (ensureQuickActionDefaults
      \<lparr>games = None,
       quick_action = Some \<lparr>enable_sound = Some False, enable_notification = None, sounds = None\<rparr>\<rparr>)
     = Some \<lparr>enable_sound = Some False, enable_notification = Some True,
             sounds = Some \<lparr>success = Some Default, failure = Some Default\<rparr>\<rparr>"
  using ensureQuickActionDefaults_normalizes[of
      "\<lparr>games = None, quick_action = Some \<lparr>enable_sound = Some False, enable_notification = None, sounds = None\<rparr>\<rparr>"
      "\<lparr>enable_sound = Some False, enable_notification = None, sounds = None\<rparr>"]
  by (simp add: ensureQuickActionDefaults_def)


lemma success_set_file:
  "quick_action c \<noteq> None \<Longrightarrow>
   success_slot (successSoundMode_set ModeFile c) = Some (File (Some (file_path_or_empty (success_slot c))))"
  by (auto simp: successSoundMode_set_def ensureSoundSlots_def ensureQuickActionDefaults_def
      set_slots_def success_slot_def file_path_or_empty_def isFileSource_def Let_def
      split: option.splits)

lemma success_set_default:
  "quick_action c \<noteq> None \<Longrightarrow> success_slot (successSoundMode_set ModeDefault c) = Some Default"
  by (auto simp: successSoundMode_set_def ensureSoundSlots_def ensureQuickActionDefaults_def
      set_slots_def success_slot_def Let_def split: option.splits)

lemma success_set_path:
  "quick_action c \<noteq> None \<Longrightarrow> success_slot (successSoundPath_set v c) = Some (File (Some v))"
  by (auto simp: successSoundPath_set_def ensureSoundSlots_def ensureQuickActionDefaults_def
      set_slots_def success_slot_def Let_def split: option.splits)

lemma success_set_keeps_quick_action:
  "quick_action c \<noteq> None \<Longrightarrow> quick_action (successSoundMode_set mode c) \<noteq> None"
  "quick_action c \<noteq> None \<Longrightarrow> quick_action (successSoundPath_set v c) \<noteq> None"
  by (auto simp: successSoundMode_set_def successSoundPath_set_def ensureSoundSlots_def
      ensureQuickActionDefaults_def set_slots_def Let_def split: option.splits)

lemma success_set_absent:
  "quick_action c = None \<Longrightarrow> successSoundMode_set mode c = c"
  "quick_action c = None \<Longrightarrow> successSoundPath_set v c = c"
  by (auto simp: successSoundMode_set_def successSoundPath_set_def ensureSoundSlots_def
      ensureQuickActionDefaults_def Let_def)

lemma failure_set_file:
  "quick_action c \<noteq> None \<Longrightarrow>
   failure_slot (failureSoundMode_set ModeFile c) = Some (File (Some (file_path_or_empty (failure_slot c))))"
  by (auto simp: failureSoundMode_set_def ensureSoundSlots_def ensureQuickActionDefaults_def
      set_slots_def failure_slot_def file_path_or_empty_def isFileSource_def Let_def
      split: option.splits)

lemma failure_set_default:
  "quick_action c \<noteq> None \<Longrightarrow> failure_slot (failureSoundMode_set ModeDefault c) = Some Default"
  by (auto simp: failureSoundMode_set_def ensureSoundSlots_def ensureQuickActionDefaults_def
      set_slots_def failure_slot_def Let_def split: option.splits)

lemma failure_set_path:
  "quick_action c \<noteq> None \<Longrightarrow> failure_slot (failureSoundPath_set v c) = Some (File (Some v))"
  by (auto simp: failureSoundPath_set_def ensureSoundSlots_def ensureQuickActionDefaults_def
      set_slots_def failure_slot_def Let_def split: option.splits)

lemma failure_set_keeps_quick_action:
  "quick_action c \<noteq> None \<Longrightarrow> quick_action (failureSoundMode_set mode c) \<noteq> None"
  "quick_action c \<noteq> None \<Longrightarrow> quick_action (failureSoundPath_set v c) \<noteq> None"
  by (auto simp: failureSoundMode_set_def failureSoundPath_set_def ensureSoundSlots_def
      ensureQuickActionDefaults_def set_slots_def Let_def split: option.splits)

lemma failure_set_absent:
  "quick_action c = None \<Longrightarrow> failureSoundMode_set mode c = c"
  "quick_action c = None \<Longrightarrow> failureSoundPath_set v c = c"
  by (auto simp: failureSoundMode_set_def failureSoundPath_set_def ensureSoundSlots_def
      ensureQuickActionDefaults_def Let_def)

lemma file_path_or_empty_cases:
  "file_path_or_empty source = (case source of Some (File (Some p)) \<Rightarrow> p | _ \<Rightarrow> [])"
  by (simp add: file_path_or_empty_def isFileSource_def
      split: option.splits QuickActionSoundSource.splits)

lemma success_sequence_path:
  "successSoundPath_get (successSoundMode_set ModeFile (successSoundMode_set ModeDefault
     (successSoundPath_set v (successSoundMode_set ModeFile c)))) = []"
proof (cases "quick_action c")
  case None
  then show ?thesis
    by (simp add: success_set_absent successSoundPath_get_def success_slot_def
        file_path_or_empty_def isFileSource_def)
next
  case (Some q)
  then have q1: "quick_action (successSoundPath_set v (successSoundMode_set ModeFile c)) \<noteq> None"
    by (simp add: success_set_keeps_quick_action)
  then have q2: "quick_action (successSoundMode_set ModeDefault
     (successSoundPath_set v (successSoundMode_set ModeFile c))) \<noteq> None"
    by (simp add: success_set_keeps_quick_action)
  show ?thesis
    by (simp add: successSoundPath_get_def success_set_file[OF q2] success_set_default[OF q1]
        file_path_or_empty_def isFileSource_def)
qed

lemma failure_sequence_path:
  "failureSoundPath_get (failureSoundMode_set ModeFile (failureSoundMode_set ModeDefault
     (failureSoundPath_set v (failureSoundMode_set ModeFile c)))) = []"
proof (cases "quick_action c")
  case None
  then show ?thesis
    by (simp add: failure_set_absent failureSoundPath_get_def failure_slot_def
        file_path_or_empty_def isFileSource_def)
next
  case (Some q)
  then have q1: "quick_action (failureSoundPath_set v (failureSoundMode_set ModeFile c)) \<noteq> None"
    by (simp add: failure_set_keeps_quick_action)
  then have q2: "quick_action (failureSoundMode_set ModeDefault
     (failureSoundPath_set v (failureSoundMode_set ModeFile c))) \<noteq> None"
    by (simp add: failure_set_keeps_quick_action)
  show ?thesis
    by (simp add: failureSoundPath_get_def failure_set_file[OF q2] failure_set_default[OF q1]
        file_path_or_empty_def isFileSource_def)
qed

text \<open>
  Claim C8 (sound-mode switch, path retention). For the success and the failure
  effect alike, on a configuration that has a \<open>quick_action\<close>: setting the mode to
  \<open>file\<close> makes the slot a file source whose path is the path stored before if the slot
  was already a file source, and the empty path otherwise; setting the mode to
  \<open>default\<close> makes the slot \<open>{kind: "default"}\<close>, whatever path was stored. So after
  file mode with path \<open>v\<close>, then default mode, then file mode again, the path read
  back is empty (this last part on every configuration), although it was \<open>v\<close> before
  the switch to default.
\<close>

theorem sound_mode_switch_path_retention:
  "(quick_action c \<noteq> None \<longrightarrow>
      success_slot (successSoundMode_set ModeFile c) =
        Some (File (Some (case success_slot c of Some (File (Some p)) \<Rightarrow> p | _ \<Rightarrow> []))) \<and>
      success_slot (successSoundMode_set ModeDefault c) = Some Default \<and>
      successSoundPath_get (successSoundMode_set ModeDefault c) = [] \<and>
      successSoundPath_get (successSoundPath_set v (successSoundMode_set ModeFile c)) = v \<and>
      failure_slot (failureSoundMode_set ModeFile c) =
        Some (File (Some (case failure_slot c of Some (File (Some p)) \<Rightarrow> p | _ \<Rightarrow> []))) \<and>
      failure_slot (failureSoundMode_set ModeDefault c) = Some Default \<and>
      failureSoundPath_get (failureSoundMode_set ModeDefault c) = [] \<and>
      failureSoundPath_get (failureSoundPath_set v (failureSoundMode_set ModeFile c)) = v) \<and>
   successSoundPath_get (successSoundMode_set ModeFile (successSoundMode_set ModeDefault
     (successSoundPath_set v (successSoundMode_set ModeFile c)))) = [] \<and>
   failureSoundPath_get (failureSoundMode_set ModeFile (failureSoundMode_set ModeDefault
     (failureSoundPath_set v (failureSoundMode_set ModeFile c)))) = []"
proof -
  have "quick_action c \<noteq> None \<longrightarrow>
      success_slot (successSoundMode_set ModeFile c) =
        Some (File (Some (case success_slot c of Some (File (Some p)) \<Rightarrow> p | _ \<Rightarrow> []))) \<and>
      success_slot (successSoundMode_set ModeDefault c) = Some Default \<and>
      successSoundPath_get (successSoundMode_set ModeDefault c) = [] \<and>
      successSoundPath_get (successSoundPath_set v (successSoundMode_set ModeFile c)) = v"
    by (simp add: success_set_file success_set_default success_set_path
        success_set_keeps_quick_action successSoundPath_get_def file_path_or_empty_cases)
  moreover have "quick_action c \<noteq> None \<longrightarrow>
      failure_slot (failureSoundMode_set ModeFile c) =
        Some (File (Some (case failure_slot c of Some (File (Some p)) \<Rightarrow> p | _ \<Rightarrow> []))) \<and>
      failure_slot (failureSoundMode_set ModeDefault c) = Some Default \<and>
      failureSoundPath_get (failureSoundMode_set ModeDefault c) = [] \<and>
      failureSoundPath_get (failureSoundPath_set v (failureSoundMode_set ModeFile c)) = v"
    by (simp add: failure_set_file failure_set_default failure_set_path
        failure_set_keeps_quick_action failureSoundPath_get_def file_path_or_empty_cases)
  ultimately show ?thesis
    using success_sequence_path[of v c] failure_sequence_path[of v c] by blast
qed

theorem sound_mode_switch_path_retention_witness:
  "quick_action \<lparr>games = None,
      quick_action = Some \<lparr>enable_sound = None, enable_notification = None,
        sounds = Some \<lparr>success = Some (File (Some ''old.wav'')), failure = Some Default\<rparr>\<rparr>\<rparr> \<noteq> None \<and>
   success_slot (successSoundMode_set ModeFile \<lparr>games = None,
      quick_action = Some \<lparr>enable_sound = None, enable_notification = None,
        sounds = Some \<lparr>success = Some (File (Some ''old.wav'')), failure = Some Default\<rparr>\<rparr>\<rparr>)
     = Some (File (Some ''old.wav'')) \<and>
   failure_slot (failureSoundMode_set ModeFile \<lparr>games = None,
      quick_action = Some \<lparr>enable_sound = None, enable_notification = None,
        sounds = Some \<lparr>success = Some (File (Some ''old.wav'')), failure = Some Default\<rparr>\<rparr>\<rparr>)
     = Some (File (Some [])) \<and>
   successSoundPath_get (successSoundMode_set ModeFile (successSoundMode_set ModeDefault
     (successSoundPath_set ''x.wav'' (successSoundMode_set ModeFile \<lparr>games = None,
      quick_action = Some \<lparr>enable_sound = None, enable_notification = None,
        sounds = Some \<lparr>success = Some (File (Some ''old.wav'')), failure = Some Default\<rparr>\<rparr>\<rparr>)))) = []"
  using sound_mode_switch_path_retention[of "\<lparr>games = None,
      quick_action = Some \<lparr>enable_sound = None, enable_notification = None,
        sounds = Some \<lparr>success = Some (File (Some ''old.wav'')), failure = Some Default\<rparr>\<rparr>\<rparr>" "''x.wav''"]
  by (simp add: success_slot_def failure_slot_def)


section \<open>Verification: device-path reconciliation and bulk import\<close>

lemma trim_Nil: "trim [] = []"
  by (simp add: trim_def)


lemma copy_paths_lookup:
  "map_of (fst (copy_paths S C m)) k =
     (if k = C \<and> nonblank (map_of m S) \<and> \<not> nonblank (map_of m C) then map_of m S
      else map_of m k)"
  by (auto simp: copy_paths_def nonblank_def truthy_def trim_Nil update_conv'
      split: option.splits)

lemma copy_paths_flag:
  "snd (copy_paths S C m) = (nonblank (map_of m S) \<and> \<not> nonblank (map_of m C))"
  by (auto simp: copy_paths_def nonblank_def truthy_def trim_Nil split: option.splits)

lemma copy_paths_unchanged: "\<not> snd (copy_paths S C m) \<Longrightarrow> fst (copy_paths S C m) = m"
  by (auto simp: copy_paths_def split: option.splits if_splits)

lemma copy_paths_changed: "snd (copy_paths S C m) \<Longrightarrow> fst (copy_paths S C m) \<noteq> m"
proof
  assume b: "snd (copy_paths S C m)" and eq: "fst (copy_paths S C m) = m"
  from b have nb: "nonblank (map_of m S)" "\<not> nonblank (map_of m C)"
    by (simp_all add: copy_paths_flag)
  from copy_paths_lookup[of S C m C] nb eq have "map_of m C = map_of m S" by simp
  with nb show False by simp
qed

lemma copy_unit_paths:
  "paths (fst (copy_unit S C u)) = map_option (\<lambda>m. fst (copy_paths S C m)) (paths u)"
  by (simp add: copy_unit_def split: option.splits prod.splits)

lemma copy_unit_flag:
  "snd (copy_unit S C u) = (case paths u of None \<Rightarrow> False | Some m \<Rightarrow> snd (copy_paths S C m))"
  by (simp add: copy_unit_def split: option.splits prod.splits)

lemma copy_unit_rest:
  "unit_type (fst (copy_unit S C u)) = unit_type u"
  "delete_before_apply (fst (copy_unit S C u)) = delete_before_apply u"
  by (simp_all add: copy_unit_def split: option.splits prod.splits)

lemma copy_paths_unchanged': "copy_paths S C m = (m', False) \<Longrightarrow> m' = m"
  using copy_paths_unchanged[of S C m] by simp

lemma copy_unit_unchanged: "\<not> snd (copy_unit S C u) \<Longrightarrow> fst (copy_unit S C u) = u"
  by (cases u) (auto simp: copy_unit_def split: option.splits prod.splits dest: copy_paths_unchanged')

lemma copy_unit_changed: "snd (copy_unit S C u) \<Longrightarrow> fst (copy_unit S C u) \<noteq> u"
proof
  assume b: "snd (copy_unit S C u)" and eq: "fst (copy_unit S C u) = u"
  from b obtain m where m: "paths u = Some m" "snd (copy_paths S C m)"
    by (auto simp: copy_unit_flag split: option.splits)
  from eq have "paths (fst (copy_unit S C u)) = paths u" by simp
  with m have "fst (copy_paths S C m) = m" by (simp add: copy_unit_paths)
  with copy_paths_changed[OF m(2)] show False by simp
qed

lemma copy_units_length: "length (fst (copy_units S C us)) = length us"
  by (induction us) (auto split: prod.splits)

lemma copy_units_map: "fst (copy_units S C us) = map (\<lambda>u. fst (copy_unit S C u)) us"
  by (induction us) (auto split: prod.splits)

lemma copy_units_flag: "snd (copy_units S C us) = (\<exists>u \<in> set us. snd (copy_unit S C u))"
  by (induction us) (auto split: prod.splits)

lemma copy_units_unchanged: "\<not> snd (copy_units S C us) \<Longrightarrow> fst (copy_units S C us) = us"
  by (simp add: copy_units_map copy_units_flag copy_unit_unchanged map_idI)

lemma copy_units_changed: "snd (copy_units S C us) \<Longrightarrow> fst (copy_units S C us) \<noteq> us"
proof
  assume b: "snd (copy_units S C us)" and eq: "fst (copy_units S C us) = us"
  from b obtain u where u: "u \<in> set us" "snd (copy_unit S C u)"
    by (auto simp: copy_units_flag)
  from eq have "map (\<lambda>u. fst (copy_unit S C u)) us = map (\<lambda>u. u) us"
    by (simp add: copy_units_map)
  with u(1) have "fst (copy_unit S C u) = u" by (simp only: map_eq_conv)
  with copy_unit_changed[OF u(2)] show False by simp
qed

lemma copy_game_save_paths:
  "save_paths (fst (copy_game S C g)) = map_option (\<lambda>us. fst (copy_units S C us)) (save_paths g)"
  by (cases g) (auto simp: copy_game_def Let_def split: option.splits prod.splits)

lemma copy_game_game_paths:
  "game_paths (fst (copy_game S C g)) = map_option (\<lambda>m. fst (copy_paths S C m)) (game_paths g)"
  by (cases g) (auto simp: copy_game_def Let_def split: option.splits prod.splits)

lemma copy_game_name: "name (fst (copy_game S C g)) = name g"
  by (cases g) (auto simp: copy_game_def Let_def split: option.splits prod.splits)

lemma copy_game_flag:
  "snd (copy_game S C g) =
     ((case save_paths g of None \<Rightarrow> False | Some us \<Rightarrow> snd (copy_units S C us)) \<or>
      (case game_paths g of None \<Rightarrow> False | Some m \<Rightarrow> snd (copy_paths S C m)))"
  by (cases g) (auto simp: copy_game_def Let_def split: option.splits prod.splits)

lemma copy_units_unchanged': "copy_units S C us = (us', False) \<Longrightarrow> us' = us"
  using copy_units_unchanged[of S C us] by simp

lemma copy_game_unchanged: "\<not> snd (copy_game S C g) \<Longrightarrow> fst (copy_game S C g) = g"
  by (cases g)
    (auto simp: copy_game_def Let_def split: option.splits prod.splits
      dest: copy_paths_unchanged' copy_units_unchanged')

lemma copy_game_changed: "snd (copy_game S C g) \<Longrightarrow> fst (copy_game S C g) \<noteq> g"
proof
  assume b: "snd (copy_game S C g)" and eq: "fst (copy_game S C g) = g"
  from eq have sp: "save_paths (fst (copy_game S C g)) = save_paths g"
    and gp: "game_paths (fst (copy_game S C g)) = game_paths g" by simp_all
  from b consider us where "save_paths g = Some us" "snd (copy_units S C us)"
    | m where "game_paths g = Some m" "snd (copy_paths S C m)"
    by (auto simp: copy_game_flag split: option.splits)
  then show False
  proof cases
    case 1
    with sp have "fst (copy_units S C us) = us" by (simp add: copy_game_save_paths)
    with copy_units_changed[OF 1(2)] show False by simp
  next
    case 2
    with gp have "fst (copy_paths S C m) = m" by (simp add: copy_game_game_paths)
    with copy_paths_changed[OF 2(2)] show False by simp
  qed
qed


lemma copyPathsFromDevice_skip:
  "currentDevice s = None \<or> game s = None \<Longrightarrow> copyPathsFromDevice S r s = s"
  by (auto simp: copyPathsFromDevice_def split: option.splits)

lemma copyPathsFromDevice_heap:
  assumes "currentDevice s = Some dev" "game s = Some a"
  shows "heap (copyPathsFromDevice S r s) = (heap s)(a := fst (copy_game S (dev_id dev) (heap s a)))"
  using assms
  by (auto simp: copyPathsFromDevice_def Let_def split: option.splits prod.splits)

lemma copyPathsFromDevice_unchanged:
  assumes "currentDevice s = Some dev" "game s = Some a"
    "\<not> snd (copy_game S (dev_id dev) (heap s a))"
  shows "copyPathsFromDevice S r s = s"
  using assms copy_game_unchanged[OF assms(3)]
  by (auto simp: copyPathsFromDevice_def Let_def split: option.splits prod.splits)

lemma copyPathsFromDevice_effects:
  "\<exists>es. effects (copyPathsFromDevice S r s) = effects s @ es \<and>
        ((\<exists>e \<in> set es. is_save e) \<longrightarrow>
           (\<exists>dev a. currentDevice s = Some dev \<and> game s = Some a \<and>
                    snd (copy_game S (dev_id dev) (heap s a))))"
  by (auto simp: copyPathsFromDevice_def Let_def saveConfig_effects_def
      split: option.splits prod.splits response.splits)

lemma fetchCurrentDevice_frame:
  "heap (fetchCurrentDevice info s) = heap s"
  "config_games (fetchCurrentDevice info s) = config_games s"
  "game (fetchCurrentDevice info s) = game s"
  "drawer (fetchCurrentDevice info s) = drawer s"
  by (simp_all add: fetchCurrentDevice_def Let_def split: response.splits)

lemma fetchCurrentDevice_effects:
  "\<exists>es. effects (fetchCurrentDevice info s) = effects s @ es \<and>
        (\<forall>e \<in> set es. \<not> is_prompt e \<and> \<not> is_save e)"
  by (cases info) (simp_all add: fetchCurrentDevice_def Let_def)

lemma set_add_set: "set (set_add x xs) = insert x (set xs)"
  by (auto simp: set_add_def)

lemma set_add_distinct: "distinct xs \<Longrightarrow> distinct (set_add x xs)"
  by (auto simp: set_add_def)

lemma collect_entries_set:
  "set (fold (\<lambda>(i, path) acc. if i \<noteq> d \<and> truthy path \<and> trim path \<noteq> []
                                then set_add i acc else acc) m acc) =
     set acc \<union> {i. i \<noteq> d \<and> (\<exists>p. (i, p) \<in> set m \<and> trim p \<noteq> [])}"
proof (induction m arbitrary: acc)
  case Nil
  then show ?case by simp
next
  case (Cons e m)
  obtain i p where e: "e = (i, p)" by (cases e) auto
  have t: "trim p \<noteq> [] \<Longrightarrow> truthy p"
    by (auto simp: truthy_def trim_Nil)
  show ?case
    using t by (auto simp: e Cons.IH set_add_set)
qed

lemma collect_entries_distinct:
  "distinct acc \<Longrightarrow>
   distinct (fold (\<lambda>(i, path) acc. if i \<noteq> d \<and> truthy path \<and> trim path \<noteq> []
                                then set_add i acc else acc) m acc)"
proof (induction m arbitrary: acc)
  case Nil
  then show ?case by simp
next
  case (Cons e m)
  obtain i p where e: "e = (i, p)" by (cases e) auto
  show ?case
    using Cons.prems by (auto simp: e intro!: Cons.IH set_add_distinct)
qed

lemma collect_unit_set:
  "set (collect_unit d u acc) =
     set acc \<union> {i. i \<noteq> d \<and> (\<exists>m p. paths u = Some m \<and> (i, p) \<in> set m \<and> trim p \<noteq> [])}"
  by (cases "paths u") (simp_all add: collect_unit_def collect_entries_set)

lemma collect_unit_distinct: "distinct acc \<Longrightarrow> distinct (collect_unit d u acc)"
  by (cases "paths u") (simp_all add: collect_unit_def collect_entries_distinct)

lemma fold_collect_set:
  "set (fold (collect_unit d) units acc) =
     set acc \<union> {i. i \<noteq> d \<and> (\<exists>u \<in> set units. \<exists>m p. paths u = Some m \<and> (i, p) \<in> set m \<and> trim p \<noteq> [])}"
  by (induction units arbitrary: acc) (auto simp: collect_unit_set)

lemma fold_collect_distinct:
  "distinct acc \<Longrightarrow> distinct (fold (collect_unit d) units acc)"
  by (induction units arbitrary: acc) (auto simp: collect_unit_distinct)

lemma devicesWithPaths_set:
  "set (devicesWithPaths d units) =
     {i. i \<noteq> d \<and> (\<exists>u \<in> set units. \<exists>m p. paths u = Some m \<and> (i, p) \<in> set m \<and> trim p \<noteq> [])}"
  by (simp add: devicesWithPaths_def fold_collect_set)

lemma devicesWithPaths_distinct: "distinct (devicesWithPaths d units)"
  by (simp add: devicesWithPaths_def fold_collect_distinct)

lemma allPathsEmpty_iff:
  "allPathsEmpty d units =
     (\<forall>u \<in> set units. \<forall>m. paths u = Some m \<longrightarrow> \<not> nonblank (map_of m d))"
proof -
  have e: "\<And>p. (\<not> truthy p \<or> trim p = []) = (trim p = [])"
    by (auto simp: truthy_def trim_Nil)
  show ?thesis
    unfolding allPathsEmpty_def list_all_iff nonblank_def e
    by (auto split: option.splits)
qed

lemma no_other_device_path_devices:
  "no_other_device_path d units \<Longrightarrow> devicesWithPaths d units = []"
proof -
  assume n: "no_other_device_path d units"
  have "set (devicesWithPaths d units) = {}"
    unfolding devicesWithPaths_set using n
    by (fastforce simp: no_other_device_path_def list_all_iff split: option.splits)
  then show ?thesis by simp
qed

lemma check_no_candidates:
  assumes "\<And>dev a units. currentDevice (fetchCurrentDevice info s) = Some dev \<Longrightarrow> game s = Some a \<Longrightarrow>
            save_paths (heap s a) = Some units \<Longrightarrow> allPathsEmpty (dev_id dev) units \<Longrightarrow>
            devicesWithPaths (dev_id dev) units = []"
  shows "checkCurrentDeviceSavePaths info ca pa r s = fetchCurrentDevice info s"
  using assms
  by (auto simp: checkCurrentDeviceSavePaths_def Let_def fetchCurrentDevice_frame
      split: option.splits)


lemma effects_mono_copy:
  "e \<in> set (effects s) \<Longrightarrow> e \<in> set (effects (copyPathsFromDevice S r s))"
  using copyPathsFromDevice_effects[of S r s] by auto

lemma check_candidates:
  assumes "currentDevice (fetchCurrentDevice info s) = Some dev" "game s = Some a"
    "save_paths (heap s a) = Some units" "allPathsEmpty (dev_id dev) units"
    "devicesWithPaths (dev_id dev) units \<noteq> []"
  shows "ConfirmBox (Tr ''manage.empty_paths_prompt'') (Tr ''manage.empty_paths_title'')
           \<in> set (effects (checkCurrentDeviceSavePaths info ca pa r s))"
    and "ca = Some ''confirm'' \<Longrightarrow> length (devicesWithPaths (dev_id dev) units) \<noteq> 1 \<Longrightarrow>
         PromptBox (map (\<lambda>i. (i, take 8 i @ ''...'')) (devicesWithPaths (dev_id dev) units))
           \<in> set (effects (checkCurrentDeviceSavePaths info ca pa r s))"
    and "ca = Some ''confirm'' \<Longrightarrow> devicesWithPaths (dev_id dev) units = [d] \<Longrightarrow>
         checkCurrentDeviceSavePaths info ca pa r s =
           copyPathsFromDevice d r
             ((fetchCurrentDevice info s)\<lparr>effects := effects (fetchCurrentDevice info s) @
                [ConfirmBox (Tr ''manage.empty_paths_prompt'') (Tr ''manage.empty_paths_title'')]\<rparr>)"
  using assms
  by (auto simp: checkCurrentDeviceSavePaths_def Let_def fetchCurrentDevice_frame
      intro!: effects_mono_copy split: option.splits prod.splits)

lemma map_of_import_paths:
  "map_of (import_paths d c m) k =
     (if k = c then (case map_of m d of
                       Some p \<Rightarrow> if p \<noteq> [] then Some p else map_of m c
                     | None \<Rightarrow> map_of m c)
      else map_of m k)"
  by (simp add: import_paths_def truthy_def update_conv' split: option.splits)

lemma save_paths_import_game:
  "save_paths (import_game d c g) = map_option (map (import_unit d c)) (save_paths g)"
  by (simp add: import_game_def Let_def split: option.splits)

lemma game_paths_import_game:
  "game_paths (import_game d c g) = map_option (import_paths d c) (game_paths g)"
  by (simp add: import_game_def Let_def split: option.splits)

lemma name_import_game: "name (import_game d c g) = name g"
  by (simp add: import_game_def Let_def split: option.splits)

lemma paths_import_unit:
  "paths (import_unit d c u) = map_option (import_paths d c) (paths u)"
  by (simp add: import_unit_def split: option.splits)

lemma import_game_entries:
  assumes "c \<noteq> d"
  shows "(\<forall>units. save_paths g = Some units \<longrightarrow>
           (\<exists>units'. save_paths (import_game d c g) = Some units' \<and> length units' = length units \<and>
              (\<forall>j < length units. \<forall>m p. paths (units ! j) = Some m \<longrightarrow> map_of m d = Some p \<longrightarrow> p \<noteq> [] \<longrightarrow>
                 (\<exists>m'. paths (units' ! j) = Some m' \<and> map_of m' c = Some p \<and> map_of m' d = Some p)))) \<and>
         (\<forall>m p. game_paths g = Some m \<longrightarrow> map_of m d = Some p \<longrightarrow> p \<noteq> [] \<longrightarrow>
            (\<exists>m'. game_paths (import_game d c g) = Some m' \<and> map_of m' c = Some p \<and> map_of m' d = Some p))"
  using assms
  by (auto simp: save_paths_import_game game_paths_import_game paths_import_unit map_of_import_paths)

text \<open>
  Claim C10 (the bulk import of the Settings page is not fill-gap). When the import is
  confirmed, the current device has an id and the source is another device, then for
  every game, every save-unit path and every launch path that the source device has
  recorded (an entry that is present and not the empty string) is afterwards also the
  current device's entry, whatever the current device's entry was before, empty or
  not; the source's entry stays, and the configuration is submitted to the backend.
\<close>

theorem importFromDevice_overwrites:
  assumes "confirmed" "dev_id cur \<noteq> []" "dev_id cur \<noteq> deviceId" "games (config st) = Some gs"
  shows "\<exists>gs'. games (config (importFromDevice cur deviceId confirmed result st)) = Some gs' \<and>
           length gs' = length gs \<and>
           (\<forall>i < length gs.
              name (gs' ! i) = name (gs ! i) \<and>
              (\<forall>units. save_paths (gs ! i) = Some units \<longrightarrow>
                 (\<exists>units'. save_paths (gs' ! i) = Some units' \<and> length units' = length units \<and>
                    (\<forall>j < length units. \<forall>m p.
                       paths (units ! j) = Some m \<longrightarrow> map_of m deviceId = Some p \<longrightarrow> p \<noteq> [] \<longrightarrow>
                       (\<exists>m'. paths (units' ! j) = Some m' \<and> map_of m' (dev_id cur) = Some p \<and>
                             map_of m' deviceId = Some p)))) \<and>
              (\<forall>m p. game_paths (gs ! i) = Some m \<longrightarrow> map_of m deviceId = Some p \<longrightarrow> p \<noteq> [] \<longrightarrow>
                 (\<exists>m'. game_paths (gs' ! i) = Some m' \<and> map_of m' (dev_id cur) = Some p \<and>
                       map_of m' deviceId = Some p))) \<and>
           SetConfig (config (importFromDevice cur deviceId confirmed result st))
             \<in> set (trace (importFromDevice cur deviceId confirmed result st))"
proof -
  let ?gs' = "map (import_game deviceId (dev_id cur)) gs"
  let ?st' = "importFromDevice cur deviceId confirmed result st"
  have cfg: "config ?st' = (config st)\<lparr>games := Some ?gs'\<rparr>"
    using assms by (simp add: importFromDevice_def truthy_def saveConfig_def Let_def)
  have tr: "SetConfig (config ?st') \<in> set (trace ?st')"
    using assms
    by (simp add: importFromDevice_def truthy_def saveConfig_def saveConfig_effects_def Let_def)
  have ent: "\<forall>i < length gs.
              name (?gs' ! i) = name (gs ! i) \<and>
              (\<forall>units. save_paths (gs ! i) = Some units \<longrightarrow>
                 (\<exists>units'. save_paths (?gs' ! i) = Some units' \<and> length units' = length units \<and>
                    (\<forall>j < length units. \<forall>m p.
                       paths (units ! j) = Some m \<longrightarrow> map_of m deviceId = Some p \<longrightarrow> p \<noteq> [] \<longrightarrow>
                       (\<exists>m'. paths (units' ! j) = Some m' \<and> map_of m' (dev_id cur) = Some p \<and>
                             map_of m' deviceId = Some p)))) \<and>
              (\<forall>m p. game_paths (gs ! i) = Some m \<longrightarrow> map_of m deviceId = Some p \<longrightarrow> p \<noteq> [] \<longrightarrow>
                 (\<exists>m'. game_paths (?gs' ! i) = Some m' \<and> map_of m' (dev_id cur) = Some p \<and>
                       map_of m' deviceId = Some p))"
  proof (intro allI impI)
    fix i assume i: "i < length gs"
    then have nth: "?gs' ! i = import_game deviceId (dev_id cur) (gs ! i)" by simp
    show "name (?gs' ! i) = name (gs ! i) \<and>
              (\<forall>units. save_paths (gs ! i) = Some units \<longrightarrow>
                 (\<exists>units'. save_paths (?gs' ! i) = Some units' \<and> length units' = length units \<and>
                    (\<forall>j < length units. \<forall>m p.
                       paths (units ! j) = Some m \<longrightarrow> map_of m deviceId = Some p \<longrightarrow> p \<noteq> [] \<longrightarrow>
                       (\<exists>m'. paths (units' ! j) = Some m' \<and> map_of m' (dev_id cur) = Some p \<and>
                             map_of m' deviceId = Some p)))) \<and>
              (\<forall>m p. game_paths (gs ! i) = Some m \<longrightarrow> map_of m deviceId = Some p \<longrightarrow> p \<noteq> [] \<longrightarrow>
                 (\<exists>m'. game_paths (?gs' ! i) = Some m' \<and> map_of m' (dev_id cur) = Some p \<and>
                       map_of m' deviceId = Some p))"
      unfolding nth
      using import_game_entries[OF assms(3), of "gs ! i"] by (simp add: name_import_game)
  qed
  show ?thesis
    apply (rule exI[of _ ?gs'])
    using cfg tr ent by simp
qed


theorem importFromDevice_overwrites_witness:
  "dev_id \<lparr>dev_id = ''B'', dev_name = ''pc''\<rparr> \<noteq> [] \<and>
   dev_id \<lparr>dev_id = ''B'', dev_name = ''pc''\<rparr> \<noteq> ''A'' \<and>
   games (config (importFromDevice \<lparr>dev_id = ''B'', dev_name = ''pc''\<rparr> ''A'' True (Ok ())
     \<lparr>config = \<lparr>games = Some [\<lparr>name = ''g'',
                     save_paths = Some [ex_unit [(''A'', ''/a/save''), (''B'', ''/b/save'')]],
                     game_paths = Some [(''A'', ''/a/game.exe''), (''B'', ''/b/game.exe'')]\<rparr>],
                 quick_action = None\<rparr>,
       configLoading = False, trace = []\<rparr>))
   = Some [\<lparr>name = ''g'',
            save_paths = Some [ex_unit [(''A'', ''/a/save''), (''B'', ''/a/save'')]],
            game_paths = Some [(''A'', ''/a/game.exe''), (''B'', ''/a/game.exe'')]\<rparr>]"
  using importFromDevice_overwrites[of True "\<lparr>dev_id = ''B'', dev_name = ''pc''\<rparr>" "''A''"
      "\<lparr>config = \<lparr>games = Some [\<lparr>name = ''g'',
                     save_paths = Some [ex_unit [(''A'', ''/a/save''), (''B'', ''/b/save'')]],
                     game_paths = Some [(''A'', ''/a/game.exe''), (''B'', ''/b/game.exe'')]\<rparr>],
                 quick_action = None\<rparr>,
       configLoading = False, trace = []\<rparr>"
      "[\<lparr>name = ''g'',
                     save_paths = Some [ex_unit [(''A'', ''/a/save''), (''B'', ''/b/save'')]],
                     game_paths = Some [(''A'', ''/a/game.exe''), (''B'', ''/b/game.exe'')]\<rparr>]" "Ok ()"]
  by (simp add: importFromDevice_def import_game_def import_unit_def import_paths_def
      ex_unit_def truthy_def saveConfig_def Let_def)

text \<open>
  Claim C1 as stated fails: an entry of the current device that consists of white
  space is not the empty string, and \<open>copyPathsFromDevice\<close> overwrites it.
\<close>

theorem copyPathsFromDevice_blank_target_counterexample:
  "map_of [(''A'', ''/a/save''), (''B'', '' '')] ''B'' = Some '' '' \<and> '' '' \<noteq> [] \<and>
   save_paths (heap (copyPathsFromDevice ''A'' (Ok ())
                 (ex_state [(''A'', ''/a/save''), (''B'', '' '')] [])) 0)
     = Some [ex_unit [(''A'', ''/a/save''), (''B'', ''/a/save'')]]"
  by (simp add: copyPathsFromDevice_def copy_game_def copy_unit_def copy_paths_def ex_state_def
      ex_unit_def trim_def js_whitespace_def truthy_def Let_def)

text \<open>
  Claim C1, amended (fill-gap copy). For the page's game, source device \<open>S\<close> and
  current device \<open>C\<close>, after \<open>copyPathsFromDevice(S)\<close>, in every save unit's path table
  and in the launch-path table: the entry of \<open>C\<close> is the value of \<open>S\<close> exactly when the
  value of \<open>S\<close> is non-empty after trimming and the entry of \<open>C\<close> was absent or empty
  after trimming; in every other case the entry of \<open>C\<close> is what it was, so an entry of
  \<open>C\<close> that is non-empty after trimming is never overwritten; and every entry under
  another id, that of \<open>S\<close> included, is what it was. The name of the game, the number of
  save units and the absence of a table are unchanged.
\<close>

theorem copyPathsFromDevice_fill_gap:
  assumes "currentDevice s = Some dev" "game s = Some a"
  shows "name (heap (copyPathsFromDevice S r s) a) = name (heap s a) \<and>
     (save_paths (heap s a) = None \<longrightarrow> save_paths (heap (copyPathsFromDevice S r s) a) = None) \<and>
     (\<forall>units. save_paths (heap s a) = Some units \<longrightarrow>
        (\<exists>units'. save_paths (heap (copyPathsFromDevice S r s) a) = Some units' \<and>
           length units' = length units \<and>
           (\<forall>j < length units.
              (paths (units ! j) = None \<longrightarrow> paths (units' ! j) = None) \<and>
              (\<forall>m. paths (units ! j) = Some m \<longrightarrow>
                 (\<exists>m'. paths (units' ! j) = Some m' \<and>
                    (\<forall>k. map_of m' k =
                       (if k = dev_id dev \<and> nonblank (map_of m S) \<and> \<not> nonblank (map_of m (dev_id dev))
                        then map_of m S else map_of m k))))))) \<and>
     (game_paths (heap s a) = None \<longrightarrow> game_paths (heap (copyPathsFromDevice S r s) a) = None) \<and>
     (\<forall>m. game_paths (heap s a) = Some m \<longrightarrow>
        (\<exists>m'. game_paths (heap (copyPathsFromDevice S r s) a) = Some m' \<and>
           (\<forall>k. map_of m' k =
              (if k = dev_id dev \<and> nonblank (map_of m S) \<and> \<not> nonblank (map_of m (dev_id dev))
               then map_of m S else map_of m k))))"
proof -
  have h: "heap (copyPathsFromDevice S r s) a = fst (copy_game S (dev_id dev) (heap s a))"
    by (simp add: copyPathsFromDevice_heap[OF assms])
  show ?thesis
    unfolding h
    by (auto simp: copy_game_name copy_game_save_paths copy_game_game_paths copy_units_map
        copy_unit_paths copy_paths_lookup)
qed

theorem copyPathsFromDevice_fill_gap_witness:
  "currentDevice (ex_state [(''A'', ''/a/save''), (''B'', [])] [(''A'', ''/a/game.exe''), (''B'', ''/b/game.exe'')])
     = Some \<lparr>dev_id = ''B'', dev_name = ''pc''\<rparr> \<and>
   game (ex_state [(''A'', ''/a/save''), (''B'', [])] [(''A'', ''/a/game.exe''), (''B'', ''/b/game.exe'')]) = Some 0 \<and>
   heap (copyPathsFromDevice ''A'' (Ok ())
          (ex_state [(''A'', ''/a/save''), (''B'', [])] [(''A'', ''/a/game.exe''), (''B'', ''/b/game.exe'')])) 0
     = \<lparr>name = ''g'', save_paths = Some [ex_unit [(''A'', ''/a/save''), (''B'', ''/a/save'')]],
        game_paths = Some [(''A'', ''/a/game.exe''), (''B'', ''/b/game.exe'')]\<rparr>"
  using copyPathsFromDevice_fill_gap[of
      "ex_state [(''A'', ''/a/save''), (''B'', [])] [(''A'', ''/a/game.exe''), (''B'', ''/b/game.exe'')]"
      "\<lparr>dev_id = ''B'', dev_name = ''pc''\<rparr>" 0 "''A''" "Ok ()"]
  by (simp add: copyPathsFromDevice_def copy_game_def copy_unit_def copy_paths_def ex_state_def
      ex_unit_def trim_def js_whitespace_def truthy_def Let_def)

text \<open>
  Claim C2 as stated fails: the launch-path table is not scanned. Here the current
  device \<open>B\<close> has no path in the only save unit and device \<open>A\<close> has a launch path;
  no candidate is collected and the function returns after fetching the device.
\<close>

theorem checkCurrentDeviceSavePaths_launch_paths_counterexample:
  "allPathsEmpty ''B'' [ex_unit [(''B'', [])]] \<and>
   map_of [(''A'', ''/a/game.exe'')] ''A'' = Some ''/a/game.exe'' \<and>
   devicesWithPaths ''B'' [ex_unit [(''B'', [])]] = [] \<and>
   effects (checkCurrentDeviceSavePaths (Ok \<lparr>dev_id = ''B'', dev_name = ''pc''\<rparr>) (Some ''confirm'') None (Ok ())
              (ex_state [(''B'', [])] [(''A'', ''/a/game.exe'')])) = [GetCurrentDeviceInfo]"
  by (simp add: checkCurrentDeviceSavePaths_def fetchCurrentDevice_def allPathsEmpty_def
      devicesWithPaths_def collect_unit_def ex_state_def ex_unit_def truthy_def trim_def Let_def)

text \<open>
  Claim C2, amended (candidate collection). The candidates that
  \<open>checkCurrentDeviceSavePaths\<close> collects are, without repetition, exactly the device
  ids other than the current one that have, in the path table of some save unit, an
  entry that is non-empty after trimming; the launch-path table \<open>game_paths\<close> plays no
  part. When the current device has no such entry in any save unit: with no candidate
  the function returns after fetching the device; with a candidate it asks for
  confirmation; and, once confirmed, with two candidates or more it prompts with
  exactly the collected ids.
\<close>

theorem devicesWithPaths_scans_save_units:
  "set (devicesWithPaths deviceId units) =
     {i. i \<noteq> deviceId \<and>
         (\<exists>u \<in> set units. \<exists>m p. paths u = Some m \<and> (i, p) \<in> set m \<and> trim p \<noteq> [])} \<and>
   distinct (devicesWithPaths deviceId units) \<and>
   (currentDevice (fetchCurrentDevice info s) = Some dev \<and> game s = Some a \<and>
    save_paths (heap s a) = Some units \<and>
    (\<forall>u \<in> set units. \<forall>m. paths u = Some m \<longrightarrow> \<not> nonblank (map_of m (dev_id dev))) \<longrightarrow>
      (devicesWithPaths (dev_id dev) units = [] \<longrightarrow>
         checkCurrentDeviceSavePaths info ca pa r s = fetchCurrentDevice info s) \<and>
      (devicesWithPaths (dev_id dev) units \<noteq> [] \<longrightarrow>
         ConfirmBox (Tr ''manage.empty_paths_prompt'') (Tr ''manage.empty_paths_title'')
           \<in> set (effects (checkCurrentDeviceSavePaths info ca pa r s))) \<and>
      (ca = Some ''confirm'' \<and> 2 \<le> length (devicesWithPaths (dev_id dev) units) \<longrightarrow>
         PromptBox (map (\<lambda>i. (i, take 8 i @ ''...'')) (devicesWithPaths (dev_id dev) units))
           \<in> set (effects (checkCurrentDeviceSavePaths info ca pa r s))))"
proof -
  have "currentDevice (fetchCurrentDevice info s) = Some dev \<and> game s = Some a \<and>
    save_paths (heap s a) = Some units \<and>
    (\<forall>u \<in> set units. \<forall>m. paths u = Some m \<longrightarrow> \<not> nonblank (map_of m (dev_id dev))) \<longrightarrow>
      (devicesWithPaths (dev_id dev) units = [] \<longrightarrow>
         checkCurrentDeviceSavePaths info ca pa r s = fetchCurrentDevice info s) \<and>
      (devicesWithPaths (dev_id dev) units \<noteq> [] \<longrightarrow>
         ConfirmBox (Tr ''manage.empty_paths_prompt'') (Tr ''manage.empty_paths_title'')
           \<in> set (effects (checkCurrentDeviceSavePaths info ca pa r s))) \<and>
      (ca = Some ''confirm'' \<and> 2 \<le> length (devicesWithPaths (dev_id dev) units) \<longrightarrow>
         PromptBox (map (\<lambda>i. (i, take 8 i @ ''...'')) (devicesWithPaths (dev_id dev) units))
           \<in> set (effects (checkCurrentDeviceSavePaths info ca pa r s)))"
  proof (intro impI, elim conjE)
    assume cd: "currentDevice (fetchCurrentDevice info s) = Some dev" and g: "game s = Some a"
      and sp: "save_paths (heap s a) = Some units"
      and "\<forall>u \<in> set units. \<forall>m. paths u = Some m \<longrightarrow> \<not> nonblank (map_of m (dev_id dev))"
    then have ae: "allPathsEmpty (dev_id dev) units" by (simp add: allPathsEmpty_iff)
    have 1: "devicesWithPaths (dev_id dev) units = [] \<longrightarrow>
         checkCurrentDeviceSavePaths info ca pa r s = fetchCurrentDevice info s"
      using cd g sp by (auto intro!: check_no_candidates)
    have 2: "devicesWithPaths (dev_id dev) units \<noteq> [] \<longrightarrow>
         ConfirmBox (Tr ''manage.empty_paths_prompt'') (Tr ''manage.empty_paths_title'')
           \<in> set (effects (checkCurrentDeviceSavePaths info ca pa r s))"
      using check_candidates(1)[OF cd g sp ae] by blast
    have 3: "ca = Some ''confirm'' \<and> 2 \<le> length (devicesWithPaths (dev_id dev) units) \<longrightarrow>
         PromptBox (map (\<lambda>i. (i, take 8 i @ ''...'')) (devicesWithPaths (dev_id dev) units))
           \<in> set (effects (checkCurrentDeviceSavePaths info ca pa r s))"
    proof
      assume h: "ca = Some ''confirm'' \<and> 2 \<le> length (devicesWithPaths (dev_id dev) units)"
      then have ne: "devicesWithPaths (dev_id dev) units \<noteq> []"
        and n1: "length (devicesWithPaths (dev_id dev) units) \<noteq> 1" by auto
      from check_candidates(2)[OF cd g sp ae ne _ n1] h
      show "PromptBox (map (\<lambda>i. (i, take 8 i @ ''...'')) (devicesWithPaths (dev_id dev) units))
           \<in> set (effects (checkCurrentDeviceSavePaths info ca pa r s))" by simp
    qed
    from 1 2 3 show "(devicesWithPaths (dev_id dev) units = [] \<longrightarrow>
         checkCurrentDeviceSavePaths info ca pa r s = fetchCurrentDevice info s) \<and>
      (devicesWithPaths (dev_id dev) units \<noteq> [] \<longrightarrow>
         ConfirmBox (Tr ''manage.empty_paths_prompt'') (Tr ''manage.empty_paths_title'')
           \<in> set (effects (checkCurrentDeviceSavePaths info ca pa r s))) \<and>
      (ca = Some ''confirm'' \<and> 2 \<le> length (devicesWithPaths (dev_id dev) units) \<longrightarrow>
         PromptBox (map (\<lambda>i. (i, take 8 i @ ''...'')) (devicesWithPaths (dev_id dev) units))
           \<in> set (effects (checkCurrentDeviceSavePaths info ca pa r s)))" by blast
  qed
  then show ?thesis
    using devicesWithPaths_set[of deviceId units] devicesWithPaths_distinct[of deviceId units]
    by blast
qed


theorem devicesWithPaths_scans_save_units_witness:
  "currentDevice (fetchCurrentDevice (Ok \<lparr>dev_id = ''B'', dev_name = ''pc''\<rparr>)
      (ex_state [(''A'', ''/a/save''), (''C'', ''/c/save''), (''B'', [])] [(''D'', ''/d/game.exe'')]))
     = Some \<lparr>dev_id = ''B'', dev_name = ''pc''\<rparr> \<and>
   \<not> nonblank (map_of [(''A'', ''/a/save''), (''C'', ''/c/save''), (''B'', [])] ''B'') \<and>
   devicesWithPaths ''B'' [ex_unit [(''A'', ''/a/save''), (''C'', ''/c/save''), (''B'', [])]] = [''A'', ''C''] \<and>
   PromptBox [(''A'', ''A...''), (''C'', ''C...'')]
     \<in> set (effects (checkCurrentDeviceSavePaths (Ok \<lparr>dev_id = ''B'', dev_name = ''pc''\<rparr>)
                 (Some ''confirm'') None (Ok ())
                 (ex_state [(''A'', ''/a/save''), (''C'', ''/c/save''), (''B'', [])] [(''D'', ''/d/game.exe'')])))"
proof -
  let ?m = "[(''A'', ''/a/save''), (''C'', ''/c/save''), (''B'', [])]"
  let ?s = "ex_state ?m [(''D'', ''/d/game.exe'')]"
  let ?dev = "\<lparr>dev_id = ''B'', dev_name = ''pc''\<rparr>"
  have cd: "currentDevice (fetchCurrentDevice (Ok ?dev) ?s) = Some ?dev"
    by (simp add: fetchCurrentDevice_def Let_def)
  have g: "game ?s = Some 0" "save_paths (heap ?s 0) = Some [ex_unit ?m]"
    by (simp_all add: ex_state_def)
  have nb: "\<not> nonblank (map_of ?m ''B'')"
    by (simp add: nonblank_def trim_def)
  have blank: "\<forall>u \<in> set [ex_unit ?m]. \<forall>m. paths u = Some m \<longrightarrow> \<not> nonblank (map_of m (dev_id ?dev))"
    using nb by (simp add: ex_unit_def)
  have devs: "devicesWithPaths ''B'' [ex_unit ?m] = [''A'', ''C'']"
    by (simp add: devicesWithPaths_def collect_unit_def ex_unit_def set_add_def truthy_def
        trim_def js_whitespace_def)
  from devicesWithPaths_scans_save_units[of "''B''" "[ex_unit ?m]" "Ok ?dev" ?s ?dev 0
      "Some ''confirm''" None "Ok ()"] cd g blank devs
  have "PromptBox [(''A'', ''A...''), (''C'', ''C...'')]
     \<in> set (effects (checkCurrentDeviceSavePaths (Ok ?dev) (Some ''confirm'') None (Ok ()) ?s))"
    by simp
  with cd nb devs show ?thesis by simp
qed

text \<open>
  Claim C7 (reconciliation no-op, persist only if changed). If no other device has a
  path that is non-empty after trimming in any save unit of the game, then
  \<open>checkCurrentDeviceSavePaths\<close> does nothing beyond fetching the current device: the
  games, the configuration and the page's game are as before, and what it adds to the
  trace contains no prompt and no \<open>setConfig\<close>. And \<open>copyPathsFromDevice\<close> submits the
  configuration only if the page's game was changed; if the game was not changed, the
  whole state, and with it the configuration document, is as before.
\<close>

theorem reconciliation_noop_and_persist_if_changed:
  "((\<forall>dev a units. currentDevice (fetchCurrentDevice info s) = Some dev \<longrightarrow> game s = Some a \<longrightarrow>
        save_paths (heap s a) = Some units \<longrightarrow> no_other_device_path (dev_id dev) units) \<longrightarrow>
      checkCurrentDeviceSavePaths info ca pa r s = fetchCurrentDevice info s \<and>
      heap (checkCurrentDeviceSavePaths info ca pa r s) = heap s \<and>
      config_games (checkCurrentDeviceSavePaths info ca pa r s) = config_games s \<and>
      game (checkCurrentDeviceSavePaths info ca pa r s) = game s \<and>
      (\<exists>es. effects (checkCurrentDeviceSavePaths info ca pa r s) = effects s @ es \<and>
            (\<forall>e \<in> set es. \<not> is_prompt e \<and> \<not> is_save e))) \<and>
   (\<exists>es. effects (copyPathsFromDevice S r s) = effects s @ es \<and>
         ((\<exists>e \<in> set es. is_save e) \<longrightarrow>
            (\<exists>a. game s = Some a \<and> heap (copyPathsFromDevice S r s) a \<noteq> heap s a))) \<and>
   ((\<forall>a. game s = Some a \<longrightarrow> heap (copyPathsFromDevice S r s) a = heap s a) \<longrightarrow>
      copyPathsFromDevice S r s = s \<and>
      config_doc (copyPathsFromDevice S r s) = config_doc s)"
proof -
  have A: "(\<forall>dev a units. currentDevice (fetchCurrentDevice info s) = Some dev \<longrightarrow> game s = Some a \<longrightarrow>
        save_paths (heap s a) = Some units \<longrightarrow> no_other_device_path (dev_id dev) units) \<longrightarrow>
      checkCurrentDeviceSavePaths info ca pa r s = fetchCurrentDevice info s \<and>
      heap (checkCurrentDeviceSavePaths info ca pa r s) = heap s \<and>
      config_games (checkCurrentDeviceSavePaths info ca pa r s) = config_games s \<and>
      game (checkCurrentDeviceSavePaths info ca pa r s) = game s \<and>
      (\<exists>es. effects (checkCurrentDeviceSavePaths info ca pa r s) = effects s @ es \<and>
            (\<forall>e \<in> set es. \<not> is_prompt e \<and> \<not> is_save e))"
  proof
    assume h: "\<forall>dev a units. currentDevice (fetchCurrentDevice info s) = Some dev \<longrightarrow> game s = Some a \<longrightarrow>
        save_paths (heap s a) = Some units \<longrightarrow> no_other_device_path (dev_id dev) units"
    have eq: "checkCurrentDeviceSavePaths info ca pa r s = fetchCurrentDevice info s"
      using h by (intro check_no_candidates no_other_device_path_devices) blast
    show "checkCurrentDeviceSavePaths info ca pa r s = fetchCurrentDevice info s \<and>
      heap (checkCurrentDeviceSavePaths info ca pa r s) = heap s \<and>
      config_games (checkCurrentDeviceSavePaths info ca pa r s) = config_games s \<and>
      game (checkCurrentDeviceSavePaths info ca pa r s) = game s \<and>
      (\<exists>es. effects (checkCurrentDeviceSavePaths info ca pa r s) = effects s @ es \<and>
            (\<forall>e \<in> set es. \<not> is_prompt e \<and> \<not> is_save e))"
      unfolding eq using fetchCurrentDevice_effects[of info s]
      by (simp add: fetchCurrentDevice_frame)
  qed
  have B: "\<exists>es. effects (copyPathsFromDevice S r s) = effects s @ es \<and>
         ((\<exists>e \<in> set es. is_save e) \<longrightarrow>
            (\<exists>a. game s = Some a \<and> heap (copyPathsFromDevice S r s) a \<noteq> heap s a))"
  proof -
    from copyPathsFromDevice_effects[of S r s] obtain es where
      es: "effects (copyPathsFromDevice S r s) = effects s @ es"
      and sv: "(\<exists>e \<in> set es. is_save e) \<longrightarrow>
           (\<exists>dev a. currentDevice s = Some dev \<and> game s = Some a \<and>
                    snd (copy_game S (dev_id dev) (heap s a)))" by blast
    have "(\<exists>e \<in> set es. is_save e) \<longrightarrow>
            (\<exists>a. game s = Some a \<and> heap (copyPathsFromDevice S r s) a \<noteq> heap s a)"
    proof
      assume "\<exists>e \<in> set es. is_save e"
      with sv obtain dev a where d: "currentDevice s = Some dev" "game s = Some a"
        "snd (copy_game S (dev_id dev) (heap s a))" by blast
      from copy_game_changed[OF d(3)] copyPathsFromDevice_heap[OF d(1,2), of S r]
      have "heap (copyPathsFromDevice S r s) a \<noteq> heap s a" by simp
      with d(2) show "\<exists>a. game s = Some a \<and> heap (copyPathsFromDevice S r s) a \<noteq> heap s a"
        by blast
    qed
    with es show ?thesis by blast
  qed
  have C: "(\<forall>a. game s = Some a \<longrightarrow> heap (copyPathsFromDevice S r s) a = heap s a) \<longrightarrow>
      copyPathsFromDevice S r s = s \<and>
      config_doc (copyPathsFromDevice S r s) = config_doc s"
  proof
    assume same: "\<forall>a. game s = Some a \<longrightarrow> heap (copyPathsFromDevice S r s) a = heap s a"
    have "copyPathsFromDevice S r s = s"
    proof (cases "currentDevice s = None \<or> game s = None")
      case True
      then show ?thesis by (rule copyPathsFromDevice_skip)
    next
      case False
      then obtain dev a where d: "currentDevice s = Some dev" "game s = Some a" by auto
      from same d(2) copyPathsFromDevice_heap[OF d, of S r]
      have "fst (copy_game S (dev_id dev) (heap s a)) = heap s a" by simp
      with copy_game_changed[of S "dev_id dev" "heap s a"]
      have "\<not> snd (copy_game S (dev_id dev) (heap s a))" by blast
      from copyPathsFromDevice_unchanged[OF d this] show ?thesis .
    qed
    then show "copyPathsFromDevice S r s = s \<and>
      config_doc (copyPathsFromDevice S r s) = config_doc s" by simp
  qed
  from A B C show ?thesis by blast
qed

theorem reconciliation_noop_and_persist_if_changed_witness:
  "no_other_device_path ''B'' [ex_unit [(''A'', ''  ''), (''B'', [])]] \<and>
   effects (checkCurrentDeviceSavePaths (Ok \<lparr>dev_id = ''B'', dev_name = ''pc''\<rparr>) (Some ''confirm'') None (Ok ())
       (ex_state [(''A'', ''  ''), (''B'', [])] [(''A'', ''/a/game.exe'')]))
     = [GetCurrentDeviceInfo] \<and>
   copyPathsFromDevice ''C'' (Ok ()) (ex_state [(''A'', ''  ''), (''B'', [])] [(''A'', ''/a/game.exe'')])
     = ex_state [(''A'', ''  ''), (''B'', [])] [(''A'', ''/a/game.exe'')] \<and>
   (\<exists>e \<in> set (effects (copyPathsFromDevice ''A'' (Ok ()) (ex_state [(''A'', ''/a/save''), (''B'', [])] []))).
      is_save e) \<and>
   heap (copyPathsFromDevice ''A'' (Ok ()) (ex_state [(''A'', ''/a/save''), (''B'', [])] [])) 0
     \<noteq> heap (ex_state [(''A'', ''/a/save''), (''B'', [])] []) 0"
proof -
  let ?m = "[(''A'', ''  ''), (''B'', [])]"
  let ?s = "ex_state ?m [(''A'', ''/a/game.exe'')]"
  let ?t = "ex_state [(''A'', ''/a/save''), (''B'', [])] []"
  let ?dev = "\<lparr>dev_id = ''B'', dev_name = ''pc''\<rparr>"
  have no: "no_other_device_path ''B'' [ex_unit ?m]"
    by (simp add: no_other_device_path_def ex_unit_def trim_def js_whitespace_def)
  have hyp: "\<forall>dev a units. currentDevice (fetchCurrentDevice (Ok ?dev) ?s) = Some dev \<longrightarrow>
        game ?s = Some a \<longrightarrow> save_paths (heap ?s a) = Some units \<longrightarrow>
        no_other_device_path (dev_id dev) units"
    using no by (simp add: fetchCurrentDevice_def ex_state_def Let_def)
  have same: "\<forall>a. game ?s = Some a \<longrightarrow> heap (copyPathsFromDevice ''C'' (Ok ()) ?s) a = heap ?s a"
    by (simp add: copyPathsFromDevice_def copy_game_def copy_unit_def copy_paths_def ex_state_def
        ex_unit_def Let_def)
  note thm_s = reconciliation_noop_and_persist_if_changed[of "Ok ?dev" ?s "Some ''confirm''" None "Ok ()" "''C''"]
  from thm_s hyp
  have eq: "checkCurrentDeviceSavePaths (Ok ?dev) (Some ''confirm'') None (Ok ()) ?s
              = fetchCurrentDevice (Ok ?dev) ?s" by blast
  have fe: "effects (fetchCurrentDevice (Ok ?dev) ?s) = [GetCurrentDeviceInfo]"
    by (simp add: fetchCurrentDevice_def ex_state_def Let_def)
  from thm_s same have noop: "copyPathsFromDevice ''C'' (Ok ()) ?s = ?s" by blast
  have et: "effects (copyPathsFromDevice ''A'' (Ok ()) ?t) =
              [SetConfig [\<lparr>name = ''g'', save_paths = Some [ex_unit [(''A'', ''/a/save''), (''B'', ''/a/save'')]],
                           game_paths = Some []\<rparr>],
               Notify Success (Tr ''manage.paths_copied_success'')]"
    by (simp add: copyPathsFromDevice_def copy_game_def copy_unit_def copy_paths_def ex_state_def
        ex_unit_def trim_def js_whitespace_def truthy_def saveConfig_effects_def config_doc_def Let_def)
  then have sv: "\<exists>e \<in> set (effects (copyPathsFromDevice ''A'' (Ok ()) ?t)). is_save e" by simp
  have t0: "effects ?t = []" "game ?t = Some 0" by (simp_all add: ex_state_def)
  from reconciliation_noop_and_persist_if_changed[of "Ok ?dev" ?t "Some ''confirm''" None "Ok ()" "''A''"]
  have "\<exists>es. effects (copyPathsFromDevice ''A'' (Ok ()) ?t) = effects ?t @ es \<and>
         ((\<exists>e \<in> set es. is_save e) \<longrightarrow>
            (\<exists>a. game ?t = Some a \<and> heap (copyPathsFromDevice ''A'' (Ok ()) ?t) a \<noteq> heap ?t a))"
    by blast
  with sv t0 have ch: "heap (copyPathsFromDevice ''A'' (Ok ()) ?t) 0 \<noteq> heap ?t 0" by auto
  from no eq fe noop sv ch show ?thesis by simp
qed


end
